theory Spec2Isabelle
  imports Main "HOL-Library.Word"
begin

section \<open>Scheduler test model: hosts (scheduler-test-util.h)\<close>

type_synonym IpAddr = string
type_synonym Hostname = string

text \<open>
  \<^verbatim>\<open>struct Host\<close>: a host of the test cluster. A port of \<open>-1\<close> says that the host
  has no backend, respectively no datanode.
\<close>

record Host =
  name :: Hostname
  ip :: IpAddr
  be_port :: "32 word"
  dn_port :: "32 word"
  is_coordinator :: bool
  is_executor :: bool

text \<open>
  The only constructor of \<^verbatim>\<open>Host\<close>. Its initialiser list sets
  \<^verbatim>\<open>is_coordinator(true)\<close>; the other members come from the arguments.
\<close>

definition Host_ctor :: "Hostname \<Rightarrow> IpAddr \<Rightarrow> 32 word \<Rightarrow> 32 word \<Rightarrow> bool \<Rightarrow> Host" where
  "Host_ctor name_arg ip_arg be_port_arg dn_port_arg is_executor_arg =
     \<lparr> name = name_arg, ip = ip_arg, be_port = be_port_arg, dn_port = dn_port_arg,
       is_coordinator = True, is_executor = is_executor_arg \<rparr>"

section \<open>The assignment heap (scheduler.h)\<close>

text \<open>
  \<^verbatim>\<open>struct BackendAssignmentInfo\<close>: the heap element. \<^verbatim>\<open>assigned_bytes\<close> is an
  \<^verbatim>\<open>int64_t\<close>, \<^verbatim>\<open>random_rank\<close> an \<^verbatim>\<open>int\<close>; both are read as signed.
\<close>

record BackendAssignmentInfo =
  assigned_bytes :: "64 word"
  random_rank :: "32 word"
  ip :: IpAddr

text \<open>
  \<^verbatim>\<open>BackendAssignmentInfo::operator>\<close>: compares the bytes when they differ and the
  ranks otherwise.
\<close>

definition operator_gt :: "BackendAssignmentInfo \<Rightarrow> BackendAssignmentInfo \<Rightarrow> bool" where
  "operator_gt lhs rhs =
     (if assigned_bytes lhs \<noteq> assigned_bytes rhs
      then sint (assigned_bytes rhs) < sint (assigned_bytes lhs)
      else sint (random_rank rhs) < sint (random_rank lhs))"

text \<open>
  \<^verbatim>\<open>AssignmentHeap\<close> is a \<^verbatim>\<open>boost::heap::binomial_heap\<close> with
  \<^verbatim>\<open>std::greater\<close> as its comparison, which makes \<^verbatim>\<open>top()\<close> an element that is
  greater than no other one. The heap is modelled by the list of its elements in the
  order of their insertion. Boost leaves open which of several equal elements
  \<^verbatim>\<open>top()\<close> returns; the model returns the one inserted first. \<^verbatim>\<open>top()\<close> of an
  empty heap is undefined in C++ and \<open>None\<close> here.
\<close>

type_synonym AssignmentHeap = "BackendAssignmentInfo list"

fun heap_min :: "BackendAssignmentInfo \<Rightarrow> AssignmentHeap \<Rightarrow> BackendAssignmentInfo" where
  "heap_min m [] = m"
| "heap_min m (e # es) = heap_min (if operator_gt m e then e else m) es"

definition heap_top :: "AssignmentHeap \<Rightarrow> BackendAssignmentInfo option" where
  "heap_top h = (case h of [] \<Rightarrow> None | e # es \<Rightarrow> Some (heap_min e es))"

text \<open>
  \<^verbatim>\<open>class AddressableAssignmentHeap\<close>: the heap and the map from a backend's IP
  address to the handle of its element, a handle being the position of the element
  in the list. \<^verbatim>\<open>size\<close>, \<^verbatim>\<open>top\<close> and \<^verbatim>\<open>find\<close> forward to the two members; they are
  \<open>heap_size\<close>, \<open>heap_top_element\<close> and \<open>find_handle\<close> here.
\<close>

record AddressableAssignmentHeap =
  backend_heap :: AssignmentHeap
  backend_handles :: "IpAddr \<rightharpoonup> nat"

definition heap_size :: "AddressableAssignmentHeap \<Rightarrow> nat" where
  "heap_size h = length (backend_heap h)"

definition heap_top_element :: "AddressableAssignmentHeap \<Rightarrow> BackendAssignmentInfo option" where
  "heap_top_element h = heap_top (backend_heap h)"

definition find_handle :: "AddressableAssignmentHeap \<Rightarrow> IpAddr \<Rightarrow> nat option" where
  "find_handle h ip_arg = backend_handles h ip_arg"

definition empty_heap :: AddressableAssignmentHeap where
  "empty_heap = \<lparr> backend_heap = [], backend_handles = Map.empty \<rparr>"

text \<open>
  Modelled from the spec: the body of \<^verbatim>\<open>AddressableAssignmentHeap::InsertOrUpdate\<close>
  (scheduler.cc is not among the sources). The spec: "if absent, insert; else
  increase-key by that delta". The sum is an \<^verbatim>\<open>int64_t\<close> and wraps.
\<close>

definition InsertOrUpdate ::
  "AddressableAssignmentHeap \<Rightarrow> IpAddr \<Rightarrow> 64 word \<Rightarrow> 32 word \<Rightarrow> AddressableAssignmentHeap" where
  "InsertOrUpdate h ip_arg bytes rank =
     (case backend_handles h ip_arg of
        None \<Rightarrow>
          h\<lparr> backend_heap := backend_heap h @
                 [\<lparr> assigned_bytes = bytes, random_rank = rank, ip = ip_arg \<rparr>],
             backend_handles := (backend_handles h)(ip_arg \<mapsto> length (backend_heap h)) \<rparr>
      | Some i \<Rightarrow>
          (if i < length (backend_heap h)
           then h\<lparr> backend_heap := (backend_heap h)
                  [i := (backend_heap h ! i)
                     \<lparr> assigned_bytes := assigned_bytes (backend_heap h ! i) + bytes \<rparr>] \<rparr>
           else h))"

section \<open>Thrift structures of the scheduler's interface\<close>

text \<open>
  Modelled from the spec: the Thrift structures (the generated \<^verbatim>\<open>gen-cpp\<close> headers are
  not among the sources), with the attributes the data model of the spec gives them. A
  scan range is an opaque blob with a length; a replica location is an index into the
  host list of the plan and a cached flag.
\<close>

record TNetworkAddress =
  hostname :: Hostname
  port :: "32 word"

record TBackendDescriptor =
  address :: TNetworkAddress
  ip_address :: IpAddr
  is_coordinator :: bool
  is_executor :: bool

datatype TReplicaPreference = CACHE_LOCAL | DISK_LOCAL | REMOTE

record TQueryOptions =
  replica_preference :: TReplicaPreference
  schedule_random_replica :: bool
  disable_cached_reads :: bool

type_synonym PlanNodeId = int

record TScanRange =
  blob :: string
  length_bytes :: "64 word"

record TScanRangeParams =
  scan_range :: TScanRange
  is_cached :: bool
  is_remote :: bool

record TScanRangeLocation =
  host_idx :: int
  is_cached :: bool

record TScanRangeLocationList =
  scan_range :: TScanRange
  locations :: "TScanRangeLocation list"

type_synonym PerNodeScanRanges = "PlanNodeId \<rightharpoonup> TScanRangeParams list"
type_synonym FragmentScanRangeAssignment = "TNetworkAddress \<rightharpoonup> PerNodeScanRanges"

text \<open>The ranges recorded for a backend and a plan node; none when either key is absent.\<close>

definition assigned_ranges ::
  "FragmentScanRangeAssignment \<Rightarrow> TNetworkAddress \<Rightarrow> PlanNodeId \<Rightarrow> TScanRangeParams list" where
  "assigned_ranges assignment addr node_id =
     (case assignment addr of
        None \<Rightarrow> []
      | Some per_node \<Rightarrow> (case per_node node_id of None \<Rightarrow> [] | Some ps \<Rightarrow> ps))"

text \<open>
  Modelled from the spec: the order of the memory distances (the enumeration
  \<^verbatim>\<open>TReplicaPreference\<close> is generated code), lowest cost first: \<open>CACHE_LOCAL\<close>,
  \<open>DISK_LOCAL\<close>, \<open>REMOTE\<close>.
\<close>

fun distance_rank :: "TReplicaPreference \<Rightarrow> nat" where
  "distance_rank CACHE_LOCAL = 0"
| "distance_rank DISK_LOCAL = 1"
| "distance_rank REMOTE = 2"

definition max_distance :: "TReplicaPreference \<Rightarrow> TReplicaPreference \<Rightarrow> TReplicaPreference" where
  "max_distance a b = (if distance_rank a < distance_rank b then b else a)"

definition min_distance :: "TReplicaPreference \<Rightarrow> TReplicaPreference \<Rightarrow> TReplicaPreference" where
  "min_distance a b = (if distance_rank b < distance_rank a then b else a)"

section \<open>The backend configuration\<close>

text \<open>
  Modelled from the spec: \<^verbatim>\<open>class BackendConfig\<close> (scheduling/backend-config.h is not
  among the sources). The spec: the executors indexed by IP address, several backends
  may share an IP address under different ports, and a mapping from host names to IP
  addresses in which the first entry for a host name wins. Both indexes are association
  lists in the order of their insertion.
\<close>

record BackendConfig =
  backend_map :: "(IpAddr \<times> TBackendDescriptor list) list"
  backend_ip_map :: "(Hostname \<times> IpAddr) list"

definition empty_config :: BackendConfig where
  "empty_config = \<lparr> backend_map = [], backend_ip_map = [] \<rparr>"

text \<open>
  Modelled from the spec: the operations of the configuration. \<open>lookup_by_ip\<close> gives
  the backends of an IP address, none when the address is unknown; \<open>NumBackends\<close> is
  the \<open>size\<close> of the spec.
\<close>

definition lookup_by_ip :: "BackendConfig \<Rightarrow> IpAddr \<Rightarrow> TBackendDescriptor list" where
  "lookup_by_ip cfg ip_arg =
     (case map_of (backend_map cfg) ip_arg of None \<Rightarrow> [] | Some ds \<Rightarrow> ds)"

definition lookup_hostname :: "BackendConfig \<Rightarrow> Hostname \<Rightarrow> IpAddr option" where
  "lookup_hostname cfg h = map_of (backend_ip_map cfg) h"

definition executors :: "BackendConfig \<Rightarrow> TBackendDescriptor list" where
  "executors cfg = concat (map snd (backend_map cfg))"

definition NumBackends :: "BackendConfig \<Rightarrow> nat" where
  "NumBackends cfg = length (executors cfg)"

text \<open>
  Modelled from the spec: the invariant of a configuration, every executor appears in
  both indexes consistently. An IP address of the executor index has at least one
  backend, each an executor that is filed under its own address, and a host name
  resolves to an address that has backends.
\<close>

definition config_consistent :: "BackendConfig \<Rightarrow> bool" where
  "config_consistent cfg \<longleftrightarrow>
     (\<forall>(ip_arg, ds) \<in> set (backend_map cfg).
        ds \<noteq> [] \<and> (\<forall>d \<in> set ds. ip_address d = ip_arg \<and> is_executor d)) \<and>
     (\<forall>(h, ip_arg) \<in> set (backend_ip_map cfg). lookup_by_ip cfg ip_arg \<noteq> [])"

section \<open>The scheduler and its assignment context\<close>

datatype error = NO_EXECUTORS | MALFORMED_PLAN | INTERNAL

text \<open>
  The members of \<^verbatim>\<open>class Scheduler\<close> that scheduling and the membership updates use.
  Modelled from the spec: \<open>rng\<close>, the injected random number generator at its seed, given
  as the shuffle it performs on a list of addresses (the header plans to inject the
  generator; the spec asks for a seedable one).
\<close>

record Scheduler =
  backend_config :: BackendConfig
  current_membership :: "string \<rightharpoonup> TBackendDescriptor"
  local_backend_descriptor :: TBackendDescriptor
  total_assignments :: int
  total_local_assignments :: int
  rng :: "IpAddr list \<Rightarrow> IpAddr list"

text \<open>\<^verbatim>\<open>struct AssignmentByteCounters\<close>; every member starts at 0.\<close>

record AssignmentByteCounters =
  remote_bytes :: "64 word"
  local_bytes :: "64 word"
  cached_bytes :: "64 word"

text \<open>
  \<^verbatim>\<open>class AssignmentCtx\<close>, with the members of the header. The two counters are
  pointers to the scheduler's counters in C++; the context carries their values here.
\<close>

record AssignmentCtx =
  backend_config :: BackendConfig
  assignment_heap :: AddressableAssignmentHeap
  random_backend_rank :: "IpAddr \<rightharpoonup> 32 word"
  first_unused_backend_idx :: nat
  random_backend_order :: "IpAddr list"
  next_backend_per_host :: "IpAddr \<rightharpoonup> nat"
  assignment_byte_counters :: AssignmentByteCounters
  total_assignments :: int
  total_local_assignments :: int

text \<open>
  Modelled from the spec: the constructor of \<^verbatim>\<open>AssignmentCtx\<close>. The order of the
  backends is the shuffle of the IP addresses of the configuration, and the rank of a
  backend its position in that order.
\<close>

definition AssignmentCtx_ctor ::
  "BackendConfig \<Rightarrow> (IpAddr list \<Rightarrow> IpAddr list) \<Rightarrow> int \<Rightarrow> int \<Rightarrow> AssignmentCtx" where
  "AssignmentCtx_ctor cfg shuffle assignments local_assignments =
     (let order = shuffle (map fst (backend_map cfg)) in
      \<lparr> backend_config = cfg,
        assignment_heap = empty_heap,
        random_backend_rank = map_of (zip order (map of_nat [0..<length order])),
        first_unused_backend_idx = 0,
        random_backend_order = order,
        next_backend_per_host = Map.empty,
        assignment_byte_counters = \<lparr> remote_bytes = 0, local_bytes = 0, cached_bytes = 0 \<rparr>,
        total_assignments = assignments,
        total_local_assignments = local_assignments \<rparr>)"

text \<open>
  Modelled from the spec: \<^verbatim>\<open>GetBackendRank\<close> and \<^verbatim>\<open>HasUnusedBackends\<close>. The rank of
  an address that has none is outside the contract of the function; it is 0 here.
\<close>

definition GetBackendRank :: "AssignmentCtx \<Rightarrow> IpAddr \<Rightarrow> 32 word" where
  "GetBackendRank ctx ip_arg =
     (case random_backend_rank ctx ip_arg of None \<Rightarrow> 0 | Some r \<Rightarrow> r)"

definition HasUnusedBackends :: "AssignmentCtx \<Rightarrow> bool" where
  "HasUnusedBackends ctx \<longleftrightarrow>
     first_unused_backend_idx ctx < length (random_backend_order ctx)"

text \<open>
  Modelled from the spec: \<^verbatim>\<open>GetNextUnusedBackendAndIncrement\<close>, the backend under the
  cursor, the cursor moving on. The caller makes sure that there is an unused backend;
  without one the result is \<open>None\<close>.
\<close>

definition GetNextUnusedBackendAndIncrement ::
  "AssignmentCtx \<Rightarrow> (IpAddr \<times> AssignmentCtx) option" where
  "GetNextUnusedBackendAndIncrement ctx =
     (if HasUnusedBackends ctx
      then Some (random_backend_order ctx ! first_unused_backend_idx ctx,
                 ctx\<lparr> first_unused_backend_idx := first_unused_backend_idx ctx + 1 \<rparr>)
      else None)"

text \<open>
  Modelled from the spec: \<^verbatim>\<open>SelectRemoteBackendHost\<close>. The spec: "if
  first_unused_cursor < N, return random_backend_order[first_unused_cursor++];
  otherwise return C3.top().ip".
\<close>

definition SelectRemoteBackendHost :: "AssignmentCtx \<Rightarrow> (IpAddr \<times> AssignmentCtx) option" where
  "SelectRemoteBackendHost ctx =
     (if HasUnusedBackends ctx then GetNextUnusedBackendAndIncrement ctx
      else (case heap_top_element (assignment_heap ctx) of
              None \<Rightarrow> None
            | Some e \<Rightarrow> Some (ip e, ctx)))"

text \<open>
  Modelled from the spec: the bytes assigned to a backend so far, as
  \<^verbatim>\<open>SelectLocalBackendHost\<close> reads them: those of its heap element, and 0 for a backend
  that has no element yet.
\<close>

definition bytes_assigned_to :: "AssignmentCtx \<Rightarrow> IpAddr \<Rightarrow> 64 word" where
  "bytes_assigned_to ctx ip_arg =
     (case find_handle (assignment_heap ctx) ip_arg of
        None \<Rightarrow> 0
      | Some i \<Rightarrow>
          (if i < heap_size (assignment_heap ctx)
           then assigned_bytes (backend_heap (assignment_heap ctx) ! i) else 0))"

text \<open>
  Modelled from the spec: \<^verbatim>\<open>SelectLocalBackendHost\<close>. The header: among the hosts in
  \<^verbatim>\<open>data_locations\<close>, the one with the minimum number of assigned bytes; the rank
  breaks ties if \<^verbatim>\<open>break_ties_by_rank\<close> is true, otherwise the first backend in the
  order of \<^verbatim>\<open>data_locations\<close> is selected. \<open>prefer_host\<close> says when a later host
  replaces the host selected so far.
\<close>

definition prefer_host :: "AssignmentCtx \<Rightarrow> bool \<Rightarrow> IpAddr \<Rightarrow> IpAddr \<Rightarrow> bool" where
  "prefer_host ctx break_ties_by_rank c best \<longleftrightarrow>
     sint (bytes_assigned_to ctx c) < sint (bytes_assigned_to ctx best) \<or>
     (bytes_assigned_to ctx c = bytes_assigned_to ctx best \<and> break_ties_by_rank \<and>
      sint (GetBackendRank ctx c) < sint (GetBackendRank ctx best))"

fun select_among :: "AssignmentCtx \<Rightarrow> bool \<Rightarrow> IpAddr \<Rightarrow> IpAddr list \<Rightarrow> IpAddr" where
  "select_among ctx break_ties_by_rank best [] = best"
| "select_among ctx break_ties_by_rank best (c # cs) =
     select_among ctx break_ties_by_rank
       (if prefer_host ctx break_ties_by_rank c best then c else best) cs"

definition SelectLocalBackendHost :: "AssignmentCtx \<Rightarrow> IpAddr list \<Rightarrow> bool \<Rightarrow> IpAddr option" where
  "SelectLocalBackendHost ctx data_locations break_ties_by_rank =
     (case data_locations of
        [] \<Rightarrow> None
      | c # cs \<Rightarrow> Some (select_among ctx break_ties_by_rank c cs))"

text \<open>
  Modelled from the spec: \<^verbatim>\<open>SelectBackendOnHost\<close>, round-robin over the backends of
  an IP address. The cursor of a host starts at its first backend; an address without
  backends has none to select.
\<close>

definition SelectBackendOnHost ::
  "AssignmentCtx \<Rightarrow> IpAddr \<Rightarrow> (TBackendDescriptor \<times> AssignmentCtx) option" where
  "SelectBackendOnHost ctx backend_ip =
     (case lookup_by_ip (backend_config ctx) backend_ip of
        [] \<Rightarrow> None
      | d # ds \<Rightarrow>
          (let i = (case next_backend_per_host ctx backend_ip of None \<Rightarrow> 0 | Some j \<Rightarrow> j)
                   mod length (d # ds)
           in Some ((d # ds) ! i,
                    ctx\<lparr> next_backend_per_host :=
                           (next_backend_per_host ctx)(backend_ip \<mapsto> (i + 1) mod length (d # ds)) \<rparr>)))"

text \<open>
  Modelled from the spec: the replica that a backend reads locally, for
  \<^verbatim>\<open>RecordScanRangeAssignment\<close>. The replicas are looked up in the host list of the
  plan, in their order; the first one whose host resolves to the IP address of the
  backend is the replica that the backend reads. There is none if no replica is on the
  host of the backend. An index out of the host list is a malformed plan.
\<close>

fun find_local_replica ::
  "BackendConfig \<Rightarrow> IpAddr \<Rightarrow> TNetworkAddress list \<Rightarrow> TScanRangeLocation list \<Rightarrow>
   error + TScanRangeLocation option" where
  "find_local_replica cfg backend_ip host_list [] = Inr None"
| "find_local_replica cfg backend_ip host_list (location # rest) =
     (if host_idx location < 0 \<or> int (length host_list) \<le> host_idx location
      then Inl MALFORMED_PLAN
      else if lookup_hostname cfg (hostname (host_list ! nat (host_idx location))) =
                Some backend_ip
      then Inr (Some location)
      else find_local_replica cfg backend_ip host_list rest)"

text \<open>
  Modelled from the spec: the parameters of a read in \<^verbatim>\<open>RecordScanRangeAssignment\<close>,
  for the entry of the assignment. The function is given the backend, the host list and
  the replica locations, and neither the query options nor the memory distance of the
  selection: whether the read is remote and whether it is cached is derived from the
  replica locations. The read is remote if no replica is on the host of the backend,
  and it is cached if the replica on the host of the backend is cached.
\<close>

definition scan_range_params ::
  "BackendConfig \<Rightarrow> TBackendDescriptor \<Rightarrow> TNetworkAddress list \<Rightarrow> TScanRangeLocationList \<Rightarrow>
   error + TScanRangeParams" where
  "scan_range_params cfg backend host_list scan_range_locations =
     (case find_local_replica cfg (ip_address backend) host_list
             (locations scan_range_locations) of
        Inl e \<Rightarrow> Inl e
      | Inr replica \<Rightarrow>
          Inr \<lparr> TScanRangeParams.scan_range = scan_range scan_range_locations,
                TScanRangeParams.is_cached =
                  (case replica of None \<Rightarrow> False
                   | Some location \<Rightarrow> TScanRangeLocation.is_cached location),
                is_remote = (replica = None) \<rparr>)"

text \<open>
  Modelled from the spec: the body of \<^verbatim>\<open>RecordScanRangeAssignment\<close>, with the
  parameters of the declaration in the header: the backend, the plan node, the host
  list, the scan range with its replica locations, and the assignment. The spec:
  "append to the per-fragment per-node list, update C3 key (+=scan_range.length),
  update byte counters", and "a range of zero length still updates the heap by one".
  A local read adds to \<^verbatim>\<open>local_bytes\<close>, and to \<^verbatim>\<open>cached_bytes\<close> when it is cached;
  each call counts as an assignment, and as a local one unless it is remote.
\<close>

definition RecordScanRangeAssignment ::
  "AssignmentCtx \<Rightarrow> TBackendDescriptor \<Rightarrow> PlanNodeId \<Rightarrow> TNetworkAddress list \<Rightarrow>
   TScanRangeLocationList \<Rightarrow> FragmentScanRangeAssignment \<Rightarrow>
   error + (AssignmentCtx \<times> FragmentScanRangeAssignment)" where
  "RecordScanRangeAssignment ctx backend node_id host_list scan_range_locations assignment =
     (case scan_range_params (backend_config ctx) backend host_list scan_range_locations of
        Inl e \<Rightarrow> Inl e
      | Inr params \<Rightarrow>
          (let scan_range_length = length_bytes (scan_range scan_range_locations);
               heap_delta = (if scan_range_length = 0 then 1 else scan_range_length);
               c = assignment_byte_counters ctx;
               c' = (if is_remote params
                     then c\<lparr> remote_bytes := remote_bytes c + scan_range_length \<rparr>
                     else c\<lparr> local_bytes := local_bytes c + scan_range_length,
                            cached_bytes :=
                              (if TScanRangeParams.is_cached params
                               then cached_bytes c + scan_range_length
                               else cached_bytes c) \<rparr>);
               per_node = (case assignment (address backend) of None \<Rightarrow> Map.empty | Some m \<Rightarrow> m);
               ps = (case per_node node_id of None \<Rightarrow> [] | Some l \<Rightarrow> l)
           in Inr (ctx\<lparr> assignment_heap :=
                          InsertOrUpdate (assignment_heap ctx) (ip_address backend) heap_delta
                            (GetBackendRank ctx (ip_address backend)),
                        assignment_byte_counters := c',
                        total_assignments := total_assignments ctx + 1,
                        total_local_assignments :=
                          (if is_remote params then total_local_assignments ctx
                           else total_local_assignments ctx + 1) \<rparr>,
                   assignment(address backend \<mapsto> per_node(node_id \<mapsto> ps @ [params])))))"

section \<open>Scan range assignment\<close>

text \<open>
  Modelled from the spec: the body of \<^verbatim>\<open>Scheduler::ComputeScanRangeAssignment\<close>, in
  the steps of the spec. The effective minimum distance is \<open>DISK_LOCAL\<close> if
  \<^verbatim>\<open>disable_cached_reads\<close> is set, which overrides any hint, and otherwise the stricter
  (the larger) of \<^verbatim>\<open>replica_preference\<close> and the hint of the plan node.
\<close>

definition base_distance :: "TQueryOptions \<Rightarrow> TReplicaPreference option \<Rightarrow> TReplicaPreference" where
  "base_distance query_options node_replica_preference =
     (if disable_cached_reads query_options then DISK_LOCAL
      else (case node_replica_preference of
              None \<Rightarrow> replica_preference query_options
            | Some p \<Rightarrow> max_distance (replica_preference query_options) p))"

text \<open>
  Modelled from the spec: the classification of the replicas in
  \<^verbatim>\<open>ComputeScanRangeAssignment\<close>. A replica is classified into a memory distance,
  clamped by the effective minimum. Its host is looked up in the host list of the
  plan; an index out of range is a malformed plan. A replica whose host has no
  executor is remote, cached or not.
\<close>

definition classify_replica ::
  "BackendConfig \<Rightarrow> TReplicaPreference \<Rightarrow> TNetworkAddress list \<Rightarrow> TScanRangeLocation \<Rightarrow>
   error + (TReplicaPreference \<times> IpAddr option)" where
  "classify_replica cfg base host_list location =
     (if host_idx location < 0 \<or> int (length host_list) \<le> host_idx location
      then Inl MALFORMED_PLAN
      else (case lookup_hostname cfg (hostname (host_list ! nat (host_idx location))) of
              None \<Rightarrow> Inr (REMOTE, None)
            | Some backend_ip \<Rightarrow>
                Inr (max_distance (if is_cached location then CACHE_LOCAL else DISK_LOCAL) base,
                     Some backend_ip)))"

fun classify_replicas ::
  "BackendConfig \<Rightarrow> TReplicaPreference \<Rightarrow> TNetworkAddress list \<Rightarrow> TScanRangeLocation list \<Rightarrow>
   error + (TReplicaPreference \<times> IpAddr option) list" where
  "classify_replicas cfg base host_list [] = Inr []"
| "classify_replicas cfg base host_list (location # rest) =
     (case classify_replica cfg base host_list location of
        Inl e \<Rightarrow> Inl e
      | Inr c \<Rightarrow>
          (case classify_replicas cfg base host_list rest of
             Inl e \<Rightarrow> Inl e
           | Inr cs \<Rightarrow> Inr (c # cs)))"

text \<open>
  Modelled from the spec: the candidates of a scan range in
  \<^verbatim>\<open>ComputeScanRangeAssignment\<close>. The best distance is the minimum observed one,
  \<open>REMOTE\<close> for a range without replicas; the candidates are the backends at the
  best distance, in the order of the replicas.
\<close>

definition best_distance :: "(TReplicaPreference \<times> IpAddr option) list \<Rightarrow> TReplicaPreference" where
  "best_distance cs = fold min_distance (map fst cs) REMOTE"

definition candidates_at ::
  "TReplicaPreference \<Rightarrow> (TReplicaPreference \<times> IpAddr option) list \<Rightarrow> IpAddr list" where
  "candidates_at best cs =
     List.map_filter (\<lambda>(d, backend_ip). if d = best then backend_ip else None) cs"

type_synonym assignment_state =
  "AssignmentCtx \<times> FragmentScanRangeAssignment \<times> TScanRangeLocationList list"

text \<open>
  Modelled from the spec: the first loop of \<^verbatim>\<open>ComputeScanRangeAssignment\<close>, for one
  scan range and for all. With \<^verbatim>\<open>exec_at_coord\<close> the range goes to the
  coordinator, before any replica is classified. Otherwise a range whose best distance
  is \<open>REMOTE\<close> is kept for the second pass, and any other is assigned to a candidate:
  ties are broken by rank at \<open>CACHE_LOCAL\<close>, and at \<open>DISK_LOCAL\<close> if the random replica
  option is in effect. The assignment is recorded by \<^verbatim>\<open>RecordScanRangeAssignment\<close>,
  which gets the backend and the replica locations.
\<close>

definition assign_scan_range ::
  "TBackendDescriptor \<Rightarrow> PlanNodeId \<Rightarrow> TReplicaPreference \<Rightarrow> bool \<Rightarrow> TNetworkAddress list \<Rightarrow>
   bool \<Rightarrow> TScanRangeLocationList \<Rightarrow> assignment_state \<Rightarrow> error + assignment_state" where
  "assign_scan_range coord node_id base random_replica host_list exec_at_coord
       scan_range_locations st =
     (case st of (ctx, assignment, remote_scan_range_locations) \<Rightarrow>
        if exec_at_coord then
          (case RecordScanRangeAssignment ctx coord node_id host_list scan_range_locations
                  assignment of
             Inl e \<Rightarrow> Inl e
           | Inr (ctx', assignment') \<Rightarrow> Inr (ctx', assignment', remote_scan_range_locations))
        else
          (case classify_replicas (backend_config ctx) base host_list
                  (locations scan_range_locations) of
             Inl e \<Rightarrow> Inl e
           | Inr cs \<Rightarrow>
               (let min_dist = best_distance cs;
                    cached_replica = (min_dist = CACHE_LOCAL)
                in if min_dist = REMOTE
                   then Inr (ctx, assignment, remote_scan_range_locations @ [scan_range_locations])
                   else
                     (case SelectLocalBackendHost ctx (candidates_at min_dist cs)
                             (random_replica \<or> cached_replica) of
                        None \<Rightarrow> Inl INTERNAL
                      | Some backend_ip \<Rightarrow>
                          (case SelectBackendOnHost ctx backend_ip of
                             None \<Rightarrow> Inl INTERNAL
                           | Some (backend, ctx1) \<Rightarrow>
                               (case RecordScanRangeAssignment ctx1 backend node_id host_list
                                       scan_range_locations assignment of
                                  Inl e \<Rightarrow> Inl e
                                | Inr (ctx2, assignment') \<Rightarrow>
                                    Inr (ctx2, assignment', remote_scan_range_locations)))))))"

fun assign_scan_ranges ::
  "TBackendDescriptor \<Rightarrow> PlanNodeId \<Rightarrow> TReplicaPreference \<Rightarrow> bool \<Rightarrow> TNetworkAddress list \<Rightarrow>
   bool \<Rightarrow> TScanRangeLocationList list \<Rightarrow> assignment_state \<Rightarrow> error + assignment_state" where
  "assign_scan_ranges coord node_id base random_replica host_list exec_at_coord [] st = Inr st"
| "assign_scan_ranges coord node_id base random_replica host_list exec_at_coord (l # ls) st =
     (case assign_scan_range coord node_id base random_replica host_list exec_at_coord l st of
        Inl e \<Rightarrow> Inl e
      | Inr st' \<Rightarrow>
          assign_scan_ranges coord node_id base random_replica host_list exec_at_coord ls st')"

text \<open>
  Modelled from the spec: the second loop of \<^verbatim>\<open>ComputeScanRangeAssignment\<close>, for one
  scan range and for all: the range goes to the backend that
  \<^verbatim>\<open>SelectRemoteBackendHost\<close> gives.
\<close>

definition assign_remote_scan_range ::
  "PlanNodeId \<Rightarrow> TNetworkAddress list \<Rightarrow> TScanRangeLocationList \<Rightarrow>
   AssignmentCtx \<times> FragmentScanRangeAssignment \<Rightarrow>
   error + (AssignmentCtx \<times> FragmentScanRangeAssignment)" where
  "assign_remote_scan_range node_id host_list scan_range_locations st =
     (case st of (ctx, assignment) \<Rightarrow>
        (case SelectRemoteBackendHost ctx of
           None \<Rightarrow> Inl INTERNAL
         | Some (backend_ip, ctx1) \<Rightarrow>
             (case SelectBackendOnHost ctx1 backend_ip of
                None \<Rightarrow> Inl INTERNAL
              | Some (backend, ctx2) \<Rightarrow>
                  RecordScanRangeAssignment ctx2 backend node_id host_list
                    scan_range_locations assignment)))"

fun assign_remote_scan_ranges ::
  "PlanNodeId \<Rightarrow> TNetworkAddress list \<Rightarrow> TScanRangeLocationList list \<Rightarrow>
   AssignmentCtx \<times> FragmentScanRangeAssignment \<Rightarrow>
   error + (AssignmentCtx \<times> FragmentScanRangeAssignment)" where
  "assign_remote_scan_ranges node_id host_list [] st = Inr st"
| "assign_remote_scan_ranges node_id host_list (l # ls) st =
     (case assign_remote_scan_range node_id host_list l st of
        Inl e \<Rightarrow> Inl e
      | Inr st' \<Rightarrow> assign_remote_scan_ranges node_id host_list ls st')"

text \<open>
  Modelled from the spec: the body of \<^verbatim>\<open>ComputeScanRangeAssignment\<close> for one plan
  node, with the parameters of the header but for the timer. It fails on a configuration without executors unless the ranges
  go to the coordinator. The header gives the two hints of the plan node as equivalent
  to the query options \<^verbatim>\<open>replica_preference\<close> and \<^verbatim>\<open>schedule_random_replica\<close>: the
  random replica option is in effect if the option or the hint is set. The ranges with
  a local replica are assigned in the first pass, the remote ones after them. The
  result is the assignment, and with it the context, whose counters the scheduler
  reports.
\<close>

definition ComputeScanRangeAssignment ::
  "Scheduler \<Rightarrow> BackendConfig \<Rightarrow> PlanNodeId \<Rightarrow> TReplicaPreference option \<Rightarrow> bool \<Rightarrow>
   TScanRangeLocationList list \<Rightarrow> TNetworkAddress list \<Rightarrow> bool \<Rightarrow> TQueryOptions \<Rightarrow>
   FragmentScanRangeAssignment \<Rightarrow> error + (AssignmentCtx \<times> FragmentScanRangeAssignment)" where
  "ComputeScanRangeAssignment this cfg node_id node_replica_preference node_random_replica
       locs host_list exec_at_coord query_options assignment =
     (if executors cfg = [] \<and> \<not> exec_at_coord then Inl NO_EXECUTORS
      else
        (let base = base_distance query_options node_replica_preference;
             random_replica = (schedule_random_replica query_options \<or> node_random_replica);
             assignment_ctx = AssignmentCtx_ctor cfg (rng this)
               (Scheduler.total_assignments this) (Scheduler.total_local_assignments this)
         in case assign_scan_ranges (local_backend_descriptor this) node_id base random_replica
                   host_list exec_at_coord locs (assignment_ctx, assignment, []) of
              Inl e \<Rightarrow> Inl e
            | Inr (ctx, assignment', remote_scan_range_locations) \<Rightarrow>
                assign_remote_scan_ranges node_id host_list remote_scan_range_locations
                  (ctx, assignment')))"

section \<open>Membership updates\<close>

text \<open>
  Modelled from the spec: the entries of a topic delta and the body of
  \<^verbatim>\<open>Scheduler::UpdateMembership\<close>. An entry has the key of a backend, and a payload or
  a tombstone; a payload that does not decode is \<open>None\<close>. A delta is a full map or an
  incremental list.
\<close>

record TTopicItem =
  key :: string
  payload :: "TBackendDescriptor option"
  deleted :: bool

record TTopicDelta =
  is_delta :: bool
  topic_entries :: "TTopicItem list"

text \<open>
  Modelled from the spec: the changes of a configuration (\<^verbatim>\<open>BackendConfig\<close> is not
  among the sources). \<open>update_backends\<close> is the executor index with the backends of
  one IP address changed by \<open>f\<close>; an address has one entry in the index, and an
  address that is left without backends leaves the index.
\<close>

fun update_backends ::
  "IpAddr \<Rightarrow> (TBackendDescriptor list \<Rightarrow> TBackendDescriptor list) \<Rightarrow>
   (IpAddr \<times> TBackendDescriptor list) list \<Rightarrow> (IpAddr \<times> TBackendDescriptor list) list" where
  "update_backends ip_arg f [] = (if f [] = [] then [] else [(ip_arg, f [])])"
| "update_backends ip_arg f ((k, ds) # rest) =
     (if k = ip_arg
      then (if f ds = [] then [] else [(k, f ds)]) @ filter (\<lambda>(k', ds'). k' \<noteq> ip_arg) rest
      else (k, ds) # update_backends ip_arg f rest)"

text \<open>
  Modelled from the spec: insert or replace, and remove. The descriptor takes the
  place of any backend of its IP address that has its port, so that the registration
  received last wins, and backends on different ports share an IP address. A backend
  that is not an executor is not in the executor set. What is removed is the
  descriptor that was registered, as the header says of \<^verbatim>\<open>current_membership_\<close>.
\<close>

definition AddBackend :: "BackendConfig \<Rightarrow> TBackendDescriptor \<Rightarrow> BackendConfig" where
  "AddBackend cfg be_desc =
     cfg\<lparr> backend_map := update_backends (ip_address be_desc)
            (\<lambda>ds. filter (\<lambda>x. port (address x) \<noteq> port (address be_desc)) ds @
                  (if is_executor be_desc then [be_desc] else []))
            (backend_map cfg) \<rparr>"

definition RemoveBackend :: "BackendConfig \<Rightarrow> TBackendDescriptor \<Rightarrow> BackendConfig" where
  "RemoveBackend cfg be_desc =
     cfg\<lparr> backend_map := update_backends (ip_address be_desc)
            (filter (\<lambda>x. x \<noteq> be_desc)) (backend_map cfg) \<rparr>"

text \<open>
  Modelled from the spec: the index of host names is rebuilt from the executors; the
  first entry of a name wins.
\<close>

definition rebuild_hostname_index :: "BackendConfig \<Rightarrow> BackendConfig" where
  "rebuild_hostname_index cfg =
     cfg\<lparr> backend_ip_map := map (\<lambda>d. (hostname (address d), ip_address d)) (executors cfg) \<rparr>"

text \<open>
  Modelled from the spec: one entry of a delta in \<^verbatim>\<open>UpdateMembership\<close>. A tombstone
  removes the backend that its key registered; a payload that does not decode is
  skipped; any other payload replaces what the key registered before and is inserted.
\<close>

definition apply_topic_item ::
  "TTopicItem \<Rightarrow> (string \<rightharpoonup> TBackendDescriptor) \<times> BackendConfig \<Rightarrow>
   (string \<rightharpoonup> TBackendDescriptor) \<times> BackendConfig" where
  "apply_topic_item item st =
     (case st of (membership, cfg) \<Rightarrow>
        if deleted item then
          (case membership (key item) of
             None \<Rightarrow> (membership, cfg)
           | Some old \<Rightarrow> (membership(key item := None), RemoveBackend cfg old))
        else
          (case payload item of
             None \<Rightarrow> (membership, cfg)
           | Some be_desc \<Rightarrow>
               (membership(key item \<mapsto> be_desc),
                AddBackend
                  (case membership (key item) of
                     None \<Rightarrow> cfg
                   | Some old \<Rightarrow> RemoveBackend cfg old)
                  be_desc)))"

text \<open>
  Modelled from the spec: the body of \<^verbatim>\<open>UpdateMembership\<close>, for the delta of the
  membership topic. The current snapshot is copied, or replaced by an empty one for a
  full map; the entries are applied in their order; the index of host names is
  rebuilt; the new snapshot is published.
\<close>

definition UpdateMembership :: "Scheduler \<Rightarrow> TTopicDelta \<Rightarrow> Scheduler" where
  "UpdateMembership this delta =
     (let start = (if is_delta delta
                   then (current_membership this, Scheduler.backend_config this)
                   else (Map.empty, empty_config));
          st = fold apply_topic_item (topic_entries delta) start
      in this\<lparr> current_membership := fst st,
               Scheduler.backend_config := rebuild_hostname_index (snd st) \<rparr>)"

section \<open>An example cluster\<close>

text \<open>
  Two executors, on \<open>10.0.0.1\<close> and \<open>10.0.0.2\<close>, with their backends on port 22000,
  and a third host that has a datanode only. The plans below refer to the datanodes of
  the three hosts, in this order. A range of 1 MB has the replicas given by the pairs
  of a host index and a cached flag.
\<close>

definition example_backend :: "Hostname \<Rightarrow> IpAddr \<Rightarrow> TBackendDescriptor" where
  "example_backend h ip_arg =
     \<lparr> address = \<lparr> hostname = h, port = 22000 \<rparr>, ip_address = ip_arg,
       is_coordinator = True, is_executor = True \<rparr>"

definition example_config :: BackendConfig where
  "example_config =
     \<lparr> backend_map = [(''10.0.0.1'', [example_backend ''host_1'' ''10.0.0.1'']),
                      (''10.0.0.2'', [example_backend ''host_2'' ''10.0.0.2''])],
       backend_ip_map = [(''host_1'', ''10.0.0.1''), (''host_2'', ''10.0.0.2'')] \<rparr>"

definition example_scheduler :: "(IpAddr list \<Rightarrow> IpAddr list) \<Rightarrow> Scheduler" where
  "example_scheduler shuffle =
     \<lparr> Scheduler.backend_config = example_config, current_membership = Map.empty,
       local_backend_descriptor = example_backend ''host_1'' ''10.0.0.1'',
       Scheduler.total_assignments = 0, Scheduler.total_local_assignments = 0,
       rng = shuffle \<rparr>"

definition example_hosts :: "TNetworkAddress list" where
  "example_hosts =
     [\<lparr> hostname = ''host_1'', port = 50010 \<rparr>, \<lparr> hostname = ''host_2'', port = 50010 \<rparr>,
      \<lparr> hostname = ''host_3'', port = 50010 \<rparr>]"

definition example_range :: "string \<Rightarrow> (int \<times> bool) list \<Rightarrow> TScanRangeLocationList" where
  "example_range file replicas =
     \<lparr> scan_range = \<lparr> blob = file, length_bytes = 1048576 \<rparr>,
       locations = map (\<lambda>(i, c). \<lparr> host_idx = i, is_cached = c \<rparr>) replicas \<rparr>"

definition example_options :: "bool \<Rightarrow> bool \<Rightarrow> TQueryOptions" where
  "example_options random_replica no_cached_reads =
     \<lparr> replica_preference = CACHE_LOCAL, schedule_random_replica = random_replica,
       disable_cached_reads = no_cached_reads \<rparr>"



section \<open>Relations between assignments\<close>








section \<open>Invariants of the assignment\<close>

text \<open>The scan ranges recorded for a backend and a plan node.\<close>

definition ranges_at ::
  "FragmentScanRangeAssignment \<Rightarrow> PlanNodeId \<Rightarrow> TNetworkAddress \<Rightarrow> TScanRange list" where
  "ranges_at assignment node_id addr =
     map TScanRangeParams.scan_range (assigned_ranges assignment addr node_id)"

text \<open>
  The number of occurrences of a range in the lists that an assignment has for the
  executors of a configuration.
\<close>

definition total_count ::
  "BackendConfig \<Rightarrow> PlanNodeId \<Rightarrow> FragmentScanRangeAssignment \<Rightarrow> TScanRange \<Rightarrow> nat" where
  "total_count cfg node_id assignment r =
     (\<Sum>b \<in> address ` set (executors cfg). count_list (ranges_at assignment node_id b) r)"

text \<open>
  The ranges of the list \<open>xs\<close> are assigned, each as often as it is in \<open>xs\<close>: the
  lists of the executors have as many occurrences of a range as \<open>xs\<close> has, and a
  backend with a range is an executor of the configuration.
\<close>

definition assignment_counts ::
  "BackendConfig \<Rightarrow> PlanNodeId \<Rightarrow> TScanRange list \<Rightarrow> FragmentScanRangeAssignment \<Rightarrow> bool" where
  "assignment_counts cfg node_id xs assignment \<longleftrightarrow>
     (\<forall>r. total_count cfg node_id assignment r = count_list xs r) \<and>
     (\<forall>b. ranges_at assignment node_id b \<noteq> [] \<longrightarrow> b \<in> address ` set (executors cfg))"

text \<open>
  A context of the configuration: its backends, in the random order and in the heap,
  are backends of the configuration, and the handles point into the heap. Between
  two scan ranges the heap is not empty once a backend has been taken from the random
  order.
\<close>

definition ctx_wf :: "BackendConfig \<Rightarrow> AssignmentCtx \<Rightarrow> bool" where
  "ctx_wf cfg ctx \<longleftrightarrow>
     backend_config ctx = cfg \<and>
     random_backend_order ctx \<noteq> [] \<and>
     set (random_backend_order ctx) \<subseteq> fst ` set (backend_map cfg) \<and>
     ip ` set (backend_heap (assignment_heap ctx)) \<subseteq> fst ` set (backend_map cfg) \<and>
     (\<forall>i j. backend_handles (assignment_heap ctx) i = Some j \<longrightarrow>
        j < length (backend_heap (assignment_heap ctx)))"

definition ctx_ok :: "BackendConfig \<Rightarrow> AssignmentCtx \<Rightarrow> bool" where
  "ctx_ok cfg ctx \<longleftrightarrow>
     ctx_wf cfg ctx \<and>
     (0 < first_unused_backend_idx ctx \<longrightarrow> backend_heap (assignment_heap ctx) \<noteq> [])"

text \<open>A plan is well formed if the host indexes of its replicas are in the host list.\<close>

definition replica_ok :: "TNetworkAddress list \<Rightarrow> TScanRangeLocation \<Rightarrow> bool" where
  "replica_ok host_list location \<longleftrightarrow>
     0 \<le> host_idx location \<and> host_idx location < int (length host_list)"

definition plan_ok :: "TNetworkAddress list \<Rightarrow> TScanRangeLocationList list \<Rightarrow> bool" where
  "plan_ok host_list locs \<longleftrightarrow> (\<forall>l \<in> set locs. \<forall>location \<in> set (locations l). replica_ok host_list location)"

text \<open>
  A classified replica is located if it has a backend with executors, or is remote
  without a backend.
\<close>

definition located :: "BackendConfig \<Rightarrow> TReplicaPreference \<times> IpAddr option \<Rightarrow> bool" where
  "located cfg c \<longleftrightarrow> (case snd c of None \<Rightarrow> fst c = REMOTE | Some a \<Rightarrow> lookup_by_ip cfg a \<noteq> [])"


text \<open>
  The executor index is well filed if each of its IP addresses has at least one
  backend and each backend is an executor that is filed under its own address.
\<close>

definition well_filed :: "(IpAddr \<times> TBackendDescriptor list) list \<Rightarrow> bool" where
  "well_filed m \<longleftrightarrow>
     (\<forall>(ip_arg, ds) \<in> set m.
        ds \<noteq> [] \<and> (\<forall>d \<in> set ds. ip_address d = ip_arg \<and> is_executor d))"






section \<open>Properties of the heap order\<close>

lemma sint_eq_iff: "sint v = sint w \<longleftrightarrow> v = w"
  by (auto intro: signed_word_eqI)

lemma operator_gt_irrefl: "\<not> operator_gt a a"
  by (simp add: operator_gt_def)

lemma operator_gt_trans:
  "operator_gt a b \<Longrightarrow> operator_gt b c \<Longrightarrow> operator_gt a c"
  by (auto simp: operator_gt_def sint_eq_iff split: if_splits)

lemma not_gt_trans:
  "\<not> operator_gt a b \<Longrightarrow> \<not> operator_gt b c \<Longrightarrow> \<not> operator_gt a c"
  by (auto simp: operator_gt_def not_less order_le_less sint_eq_iff split: if_splits)

lemma heap_min_mem: "heap_min m es \<in> set (m # es)"
  by (induction es arbitrary: m) auto

lemma heap_min_le_start: "\<not> operator_gt (heap_min m es) m"
proof (induction es arbitrary: m)
  case Nil
  show ?case by (simp add: operator_gt_irrefl)
next
  case (Cons e es)
  show ?case
  proof (cases "operator_gt m e")
    case True
    have "\<not> operator_gt (heap_min e es) e" by (rule Cons.IH)
    moreover have "\<not> operator_gt e m"
      using True by (auto simp: operator_gt_def split: if_splits)
    ultimately have "\<not> operator_gt (heap_min e es) m" by (rule not_gt_trans)
    with True show ?thesis by simp
  next
    case False
    with Cons.IH [of m] show ?thesis by simp
  qed
qed

lemma heap_min_least: "x \<in> set (m # es) \<Longrightarrow> \<not> operator_gt (heap_min m es) x"
proof (induction es arbitrary: m)
  case Nil
  then show ?case by (simp add: operator_gt_irrefl)
next
  case (Cons e es)
  let ?m' = "if operator_gt m e then e else m"
  have step: "\<not> operator_gt (heap_min ?m' es) ?m'" by (rule heap_min_le_start)
  consider "x = m" | "x = e" | "x \<in> set es" using Cons.prems by auto
  then show ?case
  proof cases
    case 1
    have "\<not> operator_gt ?m' m"
      by (auto simp: operator_gt_def split: if_splits)
    with step have "\<not> operator_gt (heap_min ?m' es) m" by (rule not_gt_trans)
    with 1 show ?thesis by simp
  next
    case 2
    have "\<not> operator_gt ?m' e"
      by (auto simp: operator_gt_irrefl)
    with step have "\<not> operator_gt (heap_min ?m' es) e" by (rule not_gt_trans)
    with 2 show ?thesis by simp
  next
    case 3
    then have "x \<in> set (?m' # es)" by simp
    then have "\<not> operator_gt (heap_min ?m' es) x" by (rule Cons.IH)
    then show ?thesis by simp
  qed
qed

lemma heap_top_least:
  assumes "heap_top h = Some t"
  shows "t \<in> set h" and "\<forall>e \<in> set h. \<not> operator_gt t e"
proof -
  from assms obtain e es where h: "h = e # es" and t: "t = heap_min e es"
    by (auto simp: heap_top_def split: list.splits)
  show "t \<in> set h" unfolding h t by (rule heap_min_mem)
  show "\<forall>e \<in> set h. \<not> operator_gt t e" unfolding h t using heap_min_least by blast
qed

lemma not_gt_iff:
  "\<not> operator_gt t e \<longleftrightarrow>
     sint (assigned_bytes t) < sint (assigned_bytes e) \<or>
     (assigned_bytes t = assigned_bytes e \<and> sint (random_rank t) \<le> sint (random_rank e))"
  by (auto simp: operator_gt_def sint_eq_iff not_less order_le_less)

section \<open>The claims about the heap order\<close>

text \<open>
  C2. The heap is a min-heap in the lexicographic order of (assigned_bytes,
  random_rank): an element compares greater than another one exactly if it has more
  assigned bytes, or as many and a greater rank. So \<^verbatim>\<open>top()\<close> of a heap that is not
  empty returns an element of the heap whose pair is minimal among all its elements.
\<close>

theorem top_is_lexicographic_minimum:
  "(operator_gt a b \<longleftrightarrow>
      sint (assigned_bytes b) < sint (assigned_bytes a) \<or>
      (assigned_bytes a = assigned_bytes b \<and> sint (random_rank b) < sint (random_rank a))) \<and>
   (backend_heap h \<noteq> [] \<longrightarrow> (\<exists>t. heap_top_element h = Some t)) \<and>
   (\<forall>t. heap_top_element h = Some t \<longrightarrow>
      t \<in> set (backend_heap h) \<and>
      (\<forall>e \<in> set (backend_heap h).
         sint (assigned_bytes t) < sint (assigned_bytes e) \<or>
         (assigned_bytes t = assigned_bytes e \<and> sint (random_rank t) \<le> sint (random_rank e))))"
proof (intro conjI allI impI)
  show "operator_gt a b \<longleftrightarrow>
      sint (assigned_bytes b) < sint (assigned_bytes a) \<or>
      (assigned_bytes a = assigned_bytes b \<and> sint (random_rank b) < sint (random_rank a))"
    by (auto simp: operator_gt_def)
next
  assume "backend_heap h \<noteq> []"
  then show "\<exists>t. heap_top_element h = Some t"
    by (cases "backend_heap h") (simp_all add: heap_top_element_def heap_top_def)
next
  fix t assume t: "heap_top_element h = Some t"
  then have ht: "heap_top (backend_heap h) = Some t" by (simp add: heap_top_element_def)
  from heap_top_least(1) [OF ht] show "t \<in> set (backend_heap h)" .
  from heap_top_least(2) [OF ht]
  show "\<forall>e \<in> set (backend_heap h).
         sint (assigned_bytes t) < sint (assigned_bytes e) \<or>
         (assigned_bytes t = assigned_bytes e \<and> sint (random_rank t) \<le> sint (random_rank e))"
    by (simp add: not_gt_iff)
qed

theorem top_is_lexicographic_minimum_witness:
  "heap_top_element \<lparr> backend_heap =
           [\<lparr> assigned_bytes = 7, random_rank = 0, ip = ''10.0.0.1'' \<rparr>,
            \<lparr> assigned_bytes = 3, random_rank = 2, ip = ''10.0.0.2'' \<rparr>,
            \<lparr> assigned_bytes = 3, random_rank = 1, ip = ''10.0.0.3'' \<rparr>],
         backend_handles = Map.empty \<rparr>
     = Some \<lparr> assigned_bytes = 3, random_rank = 1, ip = ''10.0.0.3'' \<rparr> \<and>
   \<not> operator_gt \<lparr> assigned_bytes = 3, random_rank = 1, ip = ''10.0.0.3'' \<rparr>
                  \<lparr> assigned_bytes = 7, random_rank = 0, ip = ''10.0.0.1'' \<rparr> \<and>
   \<not> operator_gt \<lparr> assigned_bytes = 3, random_rank = 1, ip = ''10.0.0.3'' \<rparr>
                  \<lparr> assigned_bytes = 3, random_rank = 2, ip = ''10.0.0.2'' \<rparr>"
proof -
  let ?e1 = "\<lparr> assigned_bytes = 7, random_rank = 0, ip = ''10.0.0.1'' \<rparr>"
  let ?e2 = "\<lparr> assigned_bytes = 3, random_rank = 2, ip = ''10.0.0.2'' \<rparr>"
  let ?t = "\<lparr> assigned_bytes = 3, random_rank = 1, ip = ''10.0.0.3'' \<rparr>"
  let ?h = "\<lparr> backend_heap = [?e1, ?e2, ?t], backend_handles = Map.empty \<rparr>"
  have t: "heap_top_element ?h = Some ?t"
    by (simp add: heap_top_element_def heap_top_def operator_gt_def)
  have least: "\<forall>e \<in> set (backend_heap ?h).
         sint (assigned_bytes ?t) < sint (assigned_bytes e) \<or>
         (assigned_bytes ?t = assigned_bytes e \<and> sint (random_rank ?t) \<le> sint (random_rank e))"
    using top_is_lexicographic_minimum [of ?t ?t ?h] t by blast
  have "\<not> operator_gt ?t ?e1" "\<not> operator_gt ?t ?e2"
    using least top_is_lexicographic_minimum [of ?t ?e1 ?h]
      top_is_lexicographic_minimum [of ?t ?e2 ?h]
    by simp_all
  with t show ?thesis by simp
qed

text \<open>
  C9. The comparison of two heap elements ignores their IP addresses: the addresses
  can be exchanged for any other ones without a change of the result, so of two
  elements with equal assigned bytes and equal ranks neither compares greater than
  the other one, and the heap returns the one of them that was inserted first.
\<close>

theorem operator_gt_ignores_ip:
  "operator_gt (a\<lparr> ip := x \<rparr>) (b\<lparr> ip := y \<rparr>) = operator_gt a b \<and>
   (assigned_bytes a = assigned_bytes b \<and> random_rank a = random_rank b \<longrightarrow>
      \<not> operator_gt a b \<and> \<not> operator_gt b a \<and>
      heap_top [a, b] = Some a \<and> heap_top [b, a] = Some b)"
  by (simp add: operator_gt_def heap_top_def)

theorem operator_gt_ignores_ip_witness:
  "\<not> operator_gt \<lparr> assigned_bytes = 5, random_rank = 1, ip = ''10.0.0.1'' \<rparr>
                  \<lparr> assigned_bytes = 5, random_rank = 1, ip = ''10.0.0.2'' \<rparr> \<and>
   \<not> operator_gt \<lparr> assigned_bytes = 5, random_rank = 1, ip = ''10.0.0.2'' \<rparr>
                  \<lparr> assigned_bytes = 5, random_rank = 1, ip = ''10.0.0.1'' \<rparr> \<and>
   heap_top [\<lparr> assigned_bytes = 5, random_rank = 1, ip = ''10.0.0.1'' \<rparr>,
             \<lparr> assigned_bytes = 5, random_rank = 1, ip = ''10.0.0.2'' \<rparr>]
     = Some \<lparr> assigned_bytes = 5, random_rank = 1, ip = ''10.0.0.1'' \<rparr> \<and>
   heap_top [\<lparr> assigned_bytes = 5, random_rank = 1, ip = ''10.0.0.2'' \<rparr>,
             \<lparr> assigned_bytes = 5, random_rank = 1, ip = ''10.0.0.1'' \<rparr>]
     = Some \<lparr> assigned_bytes = 5, random_rank = 1, ip = ''10.0.0.2'' \<rparr>"
  using operator_gt_ignores_ip
    [where a = "\<lparr> assigned_bytes = 5, random_rank = 1, ip = ''10.0.0.1'' \<rparr>"
       and b = "\<lparr> assigned_bytes = 5, random_rank = 1, ip = ''10.0.0.2'' \<rparr>"]
  by simp

section \<open>The claim about the hosts of the test model\<close>

text \<open>
  C10. Every host that the constructor of \<^verbatim>\<open>Host\<close> builds is a coordinator, whatever
  the arguments are, and is an executor as the last argument says. So a host that is a
  coordinator and no executor can be built, and a host that is an executor and no
  coordinator cannot.
\<close>

theorem Host_ctor_is_coordinator:
  "Host.is_coordinator (Host_ctor n i b d e) \<and>
   Host.is_executor (Host_ctor n i b d e) = e \<and>
   (\<exists>n i b d e. Host.is_coordinator (Host_ctor n i b d e) \<and> \<not> Host.is_executor (Host_ctor n i b d e)) \<and>
   \<not> (\<exists>n i b d e. Host.is_executor (Host_ctor n i b d e) \<and> \<not> Host.is_coordinator (Host_ctor n i b d e))"
  by (auto simp: Host_ctor_def)

section \<open>The claims about the selection of a remote backend and about empty clusters\<close>

lemmas example_defs =
  example_backend_def example_config_def example_scheduler_def example_hosts_def
  example_range_def example_options_def



text \<open>
  C4. \<^verbatim>\<open>SelectRemoteBackendHost\<close>, with N the length of the random backend order: if
  the cursor of the first unused backend is below N, the result is the backend at the
  cursor in the random backend order, and the cursor moves on by one; otherwise the
  result is the IP address of the top of the assignment heap, an element of the heap
  that no element is less than in the order of (assigned_bytes, random_rank), and the
  context is unchanged.
\<close>

theorem SelectRemoteBackendHost_cases:
  "(first_unused_backend_idx ctx < length (random_backend_order ctx) \<longrightarrow>
      SelectRemoteBackendHost ctx =
        Some (random_backend_order ctx ! first_unused_backend_idx ctx,
              ctx\<lparr> first_unused_backend_idx := first_unused_backend_idx ctx + 1 \<rparr>)) \<and>
   (\<not> first_unused_backend_idx ctx < length (random_backend_order ctx) \<longrightarrow>
      SelectRemoteBackendHost ctx =
        map_option (\<lambda>e. (ip e, ctx)) (heap_top_element (assignment_heap ctx)) \<and>
      (backend_heap (assignment_heap ctx) \<noteq> [] \<longrightarrow>
         (\<exists>e \<in> set (backend_heap (assignment_heap ctx)).
            heap_top_element (assignment_heap ctx) = Some e \<and>
            (\<forall>x \<in> set (backend_heap (assignment_heap ctx)). \<not> operator_gt e x))))"
proof (intro conjI impI)
  assume "first_unused_backend_idx ctx < length (random_backend_order ctx)"
  then show "SelectRemoteBackendHost ctx =
        Some (random_backend_order ctx ! first_unused_backend_idx ctx,
              ctx\<lparr> first_unused_backend_idx := first_unused_backend_idx ctx + 1 \<rparr>)"
    by (simp add: SelectRemoteBackendHost_def HasUnusedBackends_def
        GetNextUnusedBackendAndIncrement_def)
next
  assume "\<not> first_unused_backend_idx ctx < length (random_backend_order ctx)"
  then show "SelectRemoteBackendHost ctx =
        map_option (\<lambda>e. (ip e, ctx)) (heap_top_element (assignment_heap ctx))"
    by (simp add: SelectRemoteBackendHost_def HasUnusedBackends_def split: option.splits)
next
  assume "backend_heap (assignment_heap ctx) \<noteq> []"
  then obtain e where e: "heap_top (backend_heap (assignment_heap ctx)) = Some e"
    by (cases "backend_heap (assignment_heap ctx)") (simp_all add: heap_top_def)
  from heap_top_least [OF e] e
  show "\<exists>e \<in> set (backend_heap (assignment_heap ctx)).
            heap_top_element (assignment_heap ctx) = Some e \<and>
            (\<forall>x \<in> set (backend_heap (assignment_heap ctx)). \<not> operator_gt e x)"
    by (auto simp: heap_top_element_def)
qed

theorem SelectRemoteBackendHost_cases_witness:
  "map_option fst (SelectRemoteBackendHost
      (AssignmentCtx_ctor example_config rev 0 0)) = Some ''10.0.0.2'' \<and>
   map_option (first_unused_backend_idx \<circ> snd) (SelectRemoteBackendHost
      (AssignmentCtx_ctor example_config rev 0 0)) = Some 1 \<and>
   map_option fst (SelectRemoteBackendHost
      ((AssignmentCtx_ctor example_config rev 0 0)
         \<lparr> first_unused_backend_idx := 2,
           assignment_heap :=
             InsertOrUpdate (InsertOrUpdate empty_heap ''10.0.0.2'' 5 0) ''10.0.0.1'' 3 1 \<rparr>))
     = Some ''10.0.0.1''"
proof -
  let ?c = "AssignmentCtx_ctor example_config rev 0 0"
  let ?d = "?c\<lparr> first_unused_backend_idx := 2,
           assignment_heap :=
             InsertOrUpdate (InsertOrUpdate empty_heap ''10.0.0.2'' 5 0) ''10.0.0.1'' 3 1 \<rparr>"
  have c: "first_unused_backend_idx ?c < length (random_backend_order ?c)"
    by (simp add: AssignmentCtx_ctor_def example_defs)
  have d: "\<not> first_unused_backend_idx ?d < length (random_backend_order ?d)"
    by (simp add: AssignmentCtx_ctor_def example_defs)
  have h: "heap_top_element (assignment_heap ?d) =
      Some \<lparr> assigned_bytes = 3, random_rank = 1, ip = ''10.0.0.1'' \<rparr>"
    by (simp add: InsertOrUpdate_def empty_heap_def heap_top_element_def heap_top_def
        operator_gt_def)
  have 1: "SelectRemoteBackendHost ?c =
        Some (random_backend_order ?c ! first_unused_backend_idx ?c,
              ?c\<lparr> first_unused_backend_idx := first_unused_backend_idx ?c + 1 \<rparr>)"
    using SelectRemoteBackendHost_cases [of ?c] c by blast
  have 2: "SelectRemoteBackendHost ?d =
      map_option (\<lambda>e. (ip e, ?d)) (heap_top_element (assignment_heap ?d))"
    using SelectRemoteBackendHost_cases [of ?d] d by blast
  have 3: "random_backend_order ?c ! first_unused_backend_idx ?c = ''10.0.0.2''"
    by (simp add: AssignmentCtx_ctor_def example_defs)
  have 4: "first_unused_backend_idx ?c = 0"
    by (simp add: AssignmentCtx_ctor_def Let_def)
  show ?thesis
    unfolding 1 2 h using 3 4 by simp
qed

text \<open>
  C5. Without executors in the configuration, and with \<^verbatim>\<open>exec_at_coord\<close> not set, the
  assignment of the scan ranges of a plan node fails with \<open>NO_EXECUTORS\<close>, for every
  list of scan ranges and every other argument; no assignment is returned.
\<close>

theorem no_executors_fails:
  "executors cfg = [] \<Longrightarrow>
   ComputeScanRangeAssignment this cfg node_id node_replica_preference node_random_replica
     locs host_list False query_options assignment = Inl NO_EXECUTORS"
  by (simp add: ComputeScanRangeAssignment_def)

theorem no_executors_fails_witness:
  "executors empty_config = [] \<and>
   ComputeScanRangeAssignment (example_scheduler rev) empty_config 0 None False
     [example_range ''f1'' [(0, False), (1, False)]] example_hosts False
     (example_options False False) Map.empty = Inl NO_EXECUTORS"
proof -
  have e: "executors empty_config = []"
    by (simp add: executors_def empty_config_def)
  from e no_executors_fails [OF e] show ?thesis by simp
qed

section \<open>Properties of the recording of an assignment\<close>

lemma find_local_replica_ok:
  "\<forall>loc \<in> set locs. replica_ok hosts loc \<Longrightarrow> \<exists>r. find_local_replica cfg i hosts locs = Inr r"
  by (induction locs) (auto simp: replica_ok_def)

lemma scan_range_params_ok:
  assumes "\<forall>loc \<in> set (locations l). replica_ok hosts loc"
  shows "\<exists>p. scan_range_params cfg backend hosts l = Inr p"
proof -
  from find_local_replica_ok [OF assms] obtain r where
    "find_local_replica cfg (ip_address backend) hosts (locations l) = Inr r"
    by blast
  then show ?thesis by (simp add: scan_range_params_def)
qed

lemma scan_range_params_range:
  "scan_range_params cfg backend hosts l = Inr p \<Longrightarrow>
   TScanRangeParams.scan_range p = scan_range l"
  by (auto simp: scan_range_params_def split: sum.splits)

lemma RecordScanRangeAssignment_ok:
  assumes "\<forall>loc \<in> set (locations l). replica_ok hosts loc"
  shows "\<exists>ctx' a'. RecordScanRangeAssignment ctx backend node_id hosts l a = Inr (ctx', a')"
proof -
  from scan_range_params_ok [OF assms] obtain p where
    "scan_range_params (backend_config ctx) backend hosts l = Inr p"
    by blast
  then show ?thesis by (simp add: RecordScanRangeAssignment_def Let_def)
qed

lemma RecordScanRangeAssignment_params:
  assumes "RecordScanRangeAssignment ctx backend node_id hosts l a = Inr (ctx', a')"
  shows "\<exists>p. scan_range_params (backend_config ctx) backend hosts l = Inr p \<and>
           (\<forall>b n. assigned_ranges a' b n =
              assigned_ranges a b n @ (if b = address backend \<and> n = node_id then [p] else []))"
proof -
  from assms obtain p where
    p: "scan_range_params (backend_config ctx) backend hosts l = Inr p"
    by (auto simp: RecordScanRangeAssignment_def split: sum.splits)
  with assms have a': "a' = a(address backend \<mapsto>
      (case a (address backend) of None \<Rightarrow> Map.empty | Some m \<Rightarrow> m)
        (node_id \<mapsto> (case (case a (address backend) of None \<Rightarrow> Map.empty | Some m \<Rightarrow> m) node_id of
                        None \<Rightarrow> [] | Some l \<Rightarrow> l) @ [p]))"
    by (simp add: RecordScanRangeAssignment_def Let_def)
  have "\<forall>b n. assigned_ranges a' b n =
      assigned_ranges a b n @ (if b = address backend \<and> n = node_id then [p] else [])"
    unfolding a' by (simp add: assigned_ranges_def split: option.splits)
  with p show ?thesis by blast
qed

lemma RecordScanRangeAssignment_ctx:
  assumes "RecordScanRangeAssignment ctx backend node_id hosts l a = Inr (ctx', a')"
  shows "assignment_heap ctx' =
           InsertOrUpdate (assignment_heap ctx) (ip_address backend)
             (if length_bytes (scan_range l) = 0 then 1 else length_bytes (scan_range l))
             (GetBackendRank ctx (ip_address backend))"
    and "backend_config ctx' = backend_config ctx"
    and "random_backend_order ctx' = random_backend_order ctx"
    and "random_backend_rank ctx' = random_backend_rank ctx"
    and "first_unused_backend_idx ctx' = first_unused_backend_idx ctx"
    and "next_backend_per_host ctx' = next_backend_per_host ctx"
  using assms by (auto simp: RecordScanRangeAssignment_def Let_def split: sum.splits)


lemma fold_min_distance_mem: "fold min_distance ds acc \<in> insert acc (set ds)"
  by (induction ds arbitrary: acc) (auto simp: min_distance_def)

lemma best_distance_mem: "best_distance cs \<in> insert REMOTE (fst ` set cs)"
  using fold_min_distance_mem [of "map fst cs" REMOTE] by (simp add: best_distance_def)






section \<open>Properties of the selection of a local backend\<close>

lemma select_among_mem: "select_among ctx by_rank best cs \<in> set (best # cs)"
  by (induction cs arbitrary: best) auto



section \<open>The claim about disabled cached reads\<close>

subsection \<open>Replicas without their cached flags\<close>






subsection \<open>Contexts with the same choices\<close>










subsection \<open>The two passes without the cached flags\<close>






subsection \<open>The reads that are recorded\<close>










subsection \<open>The claim\<close>




section \<open>The claim about ties between disk-local replicas\<close>




section \<open>The claim about the assignment of every scan range\<close>

subsection \<open>The heap and the context\<close>

lemma InsertOrUpdate_ips:
  "ip ` set (backend_heap (InsertOrUpdate h i b r)) \<subseteq> insert i (ip ` set (backend_heap h))"
proof (cases "backend_handles h i")
  case None
  then show ?thesis by (auto simp: InsertOrUpdate_def)
next
  case (Some j)
  show ?thesis
  proof (cases "j < length (backend_heap h)")
    case True
    let ?e = "(backend_heap h ! j)\<lparr> assigned_bytes := assigned_bytes (backend_heap h ! j) + b \<rparr>"
    have "map ip ((backend_heap h)[j := ?e]) = map ip (backend_heap h)"
      using True by (simp add: map_update list_update_same_conv)
    then have "ip ` set ((backend_heap h)[j := ?e]) = ip ` set (backend_heap h)"
      by (metis set_map)
    with Some True show ?thesis by (auto simp: InsertOrUpdate_def)
  next
    case False
    with Some show ?thesis by (auto simp: InsertOrUpdate_def)
  qed
qed

lemma InsertOrUpdate_handles:
  assumes "\<forall>i j. backend_handles h i = Some j \<longrightarrow> j < length (backend_heap h)"
  shows "\<forall>i j. backend_handles (InsertOrUpdate h k b r) i = Some j \<longrightarrow>
           j < length (backend_heap (InsertOrUpdate h k b r))"
  using assms by (auto simp: InsertOrUpdate_def less_Suc_eq split: option.splits if_splits)

lemma InsertOrUpdate_not_empty:
  assumes "\<forall>i j. backend_handles h i = Some j \<longrightarrow> j < length (backend_heap h)"
  shows "backend_heap (InsertOrUpdate h k b r) \<noteq> []"
  using assms by (auto simp: InsertOrUpdate_def split: option.splits)

lemma ctx_ok_Record:
  assumes "ctx_wf cfg ctx" and "ip_address backend \<in> fst ` set (backend_map cfg)"
    and rec: "RecordScanRangeAssignment ctx backend node_id hosts l a = Inr (ctx', a')"
  shows "ctx_ok cfg ctx'"
proof -
  let ?h = "assignment_heap ctx"
  let ?d = "if length_bytes (scan_range l) = 0 then 1 else length_bytes (scan_range l)"
  let ?h' = "InsertOrUpdate ?h (ip_address backend) ?d (GetBackendRank ctx (ip_address backend))"
  note h' = RecordScanRangeAssignment_ctx(1) [OF rec]
  note same = RecordScanRangeAssignment_ctx(2,3) [OF rec]
  from assms(1) have handles: "\<forall>i j. backend_handles ?h i = Some j \<longrightarrow> j < length (backend_heap ?h)"
    by (simp add: ctx_wf_def)
  have "insert (ip_address backend) (ip ` set (backend_heap ?h)) \<subseteq> fst ` set (backend_map cfg)"
    using assms(1,2) by (simp add: ctx_wf_def)
  then have "ip ` set (backend_heap ?h') \<subseteq> fst ` set (backend_map cfg)"
    by (rule order_trans [OF InsertOrUpdate_ips])
  moreover note InsertOrUpdate_handles [OF handles, of "ip_address backend" ?d
      "GetBackendRank ctx (ip_address backend)"]
  moreover note InsertOrUpdate_not_empty [OF handles, of "ip_address backend" ?d
      "GetBackendRank ctx (ip_address backend)"]
  ultimately show ?thesis
    using assms(1) unfolding ctx_ok_def ctx_wf_def h' same by simp
qed

subsection \<open>The configuration\<close>

lemma lookup_by_ip_key:
  assumes "config_consistent cfg" and "i \<in> fst ` set (backend_map cfg)"
  shows "lookup_by_ip cfg i \<noteq> []"
proof -
  from assms(2) obtain ds where m: "map_of (backend_map cfg) i = Some ds"
    by (metis domD dom_map_of_conv_image_fst)
  then have "(i, ds) \<in> set (backend_map cfg)" by (rule map_of_SomeD)
  with assms(1) have "ds \<noteq> []" by (auto simp: config_consistent_def)
  with m show ?thesis by (simp add: lookup_by_ip_def)
qed

lemma lookup_by_ip_executor:
  assumes "config_consistent cfg" and "d \<in> set (lookup_by_ip cfg i)"
  shows "d \<in> set (executors cfg)" and "ip_address d \<in> fst ` set (backend_map cfg)"
proof -
  from assms(2) obtain ds where m: "map_of (backend_map cfg) i = Some ds" and d: "d \<in> set ds"
    by (cases "map_of (backend_map cfg) i") (auto simp: lookup_by_ip_def)
  from m have mem: "(i, ds) \<in> set (backend_map cfg)" by (rule map_of_SomeD)
  with d show "d \<in> set (executors cfg)" by (force simp: executors_def)
  from assms(1) mem d have "ip_address d = i" by (auto simp: config_consistent_def)
  with mem show "ip_address d \<in> fst ` set (backend_map cfg)" by force
qed

lemma SelectBackendOnHost_ok:
  assumes "config_consistent cfg" and "ctx_wf cfg ctx" and "lookup_by_ip cfg i \<noteq> []"
  shows "\<exists>backend ctx1. SelectBackendOnHost ctx i = Some (backend, ctx1) \<and>
           backend \<in> set (executors cfg) \<and>
           ip_address backend \<in> fst ` set (backend_map cfg) \<and> ctx_wf cfg ctx1"
proof -
  from assms(2) have cfg: "backend_config ctx = cfg" by (simp add: ctx_wf_def)
  from assms(3) obtain d ds where l: "lookup_by_ip cfg i = d # ds"
    by (cases "lookup_by_ip cfg i") auto
  let ?n = "(case next_backend_per_host ctx i of None \<Rightarrow> 0 | Some j \<Rightarrow> j) mod length (d # ds)"
  let ?ctx1 = "ctx\<lparr> next_backend_per_host :=
                 (next_backend_per_host ctx)(i \<mapsto> (?n + 1) mod length (d # ds)) \<rparr>"
  have sel: "SelectBackendOnHost ctx i = Some ((d # ds) ! ?n, ?ctx1)"
    using cfg l by (simp add: SelectBackendOnHost_def Let_def)
  have "?n < length (d # ds)" by simp
  then have "(d # ds) ! ?n \<in> set (d # ds)" by (rule nth_mem)
  with l have mem: "(d # ds) ! ?n \<in> set (lookup_by_ip cfg i)" by simp
  have "ctx_wf cfg ?ctx1" using assms(2) by (simp add: ctx_wf_def)
  with sel lookup_by_ip_executor [OF assms(1) mem] show ?thesis by blast
qed

lemma SelectRemoteBackendHost_ok:
  assumes "ctx_ok cfg ctx"
  shows "\<exists>i ctx1. SelectRemoteBackendHost ctx = Some (i, ctx1) \<and>
           i \<in> fst ` set (backend_map cfg) \<and> ctx_wf cfg ctx1"
proof (cases "HasUnusedBackends ctx")
  case True
  let ?i = "random_backend_order ctx ! first_unused_backend_idx ctx"
  let ?ctx1 = "ctx\<lparr> first_unused_backend_idx := first_unused_backend_idx ctx + 1 \<rparr>"
  from True have sel: "SelectRemoteBackendHost ctx = Some (?i, ?ctx1)"
    by (simp add: SelectRemoteBackendHost_def GetNextUnusedBackendAndIncrement_def)
  from True have "?i \<in> set (random_backend_order ctx)"
    by (simp add: HasUnusedBackends_def)
  with assms have "?i \<in> fst ` set (backend_map cfg)"
    by (auto simp: ctx_ok_def ctx_wf_def)
  moreover from assms have "ctx_wf cfg ?ctx1" by (simp add: ctx_ok_def ctx_wf_def)
  ultimately show ?thesis using sel by blast
next
  case False
  from assms have "random_backend_order ctx \<noteq> []" by (simp add: ctx_ok_def ctx_wf_def)
  with False have "0 < first_unused_backend_idx ctx"
    by (cases "random_backend_order ctx") (simp_all add: HasUnusedBackends_def)
  with assms have ne: "backend_heap (assignment_heap ctx) \<noteq> []" by (simp add: ctx_ok_def)
  then obtain e where e: "heap_top (backend_heap (assignment_heap ctx)) = Some e"
    by (cases "backend_heap (assignment_heap ctx)") (simp_all add: heap_top_def)
  from False e have sel: "SelectRemoteBackendHost ctx = Some (ip e, ctx)"
    by (simp add: SelectRemoteBackendHost_def heap_top_element_def)
  from heap_top_least(1) [OF e] assms have "ip e \<in> fst ` set (backend_map cfg)"
    by (auto simp: ctx_ok_def ctx_wf_def)
  with sel assms show ?thesis by (auto simp: ctx_ok_def)
qed

subsection \<open>The classification of the replicas\<close>

lemma classify_replica_malformed:
  "\<not> replica_ok hosts loc \<Longrightarrow> classify_replica cfg base hosts loc = Inl MALFORMED_PLAN"
  by (auto simp: classify_replica_def replica_ok_def)

lemma classify_replica_ok:
  assumes "config_consistent cfg" and "replica_ok hosts loc"
  shows "\<exists>c. classify_replica cfg base hosts loc = Inr c \<and> located cfg c"
proof (cases "lookup_hostname cfg (hostname (hosts ! nat (host_idx loc)))")
  case None
  with assms(2) show ?thesis by (simp add: classify_replica_def replica_ok_def located_def)
next
  case (Some a)
  then have "(hostname (hosts ! nat (host_idx loc)), a) \<in> set (backend_ip_map cfg)"
    unfolding lookup_hostname_def by (rule map_of_SomeD)
  with assms(1) have "lookup_by_ip cfg a \<noteq> []" by (auto simp: config_consistent_def)
  with Some assms(2) show ?thesis by (simp add: classify_replica_def replica_ok_def located_def)
qed

lemma classify_replicas_malformed:
  "\<not> (\<forall>loc \<in> set locs. replica_ok hosts loc) \<Longrightarrow>
   classify_replicas cfg base hosts locs = Inl MALFORMED_PLAN"
proof (induction locs)
  case Nil
  then show ?case by simp
next
  case (Cons loc locs)
  show ?case
  proof (cases "replica_ok hosts loc")
    case False
    then show ?thesis by (simp add: classify_replica_malformed)
  next
    case True
    with Cons.prems have "\<not> (\<forall>loc \<in> set locs. replica_ok hosts loc)" by simp
    from Cons.IH [OF this] True show ?thesis
      by (auto simp: classify_replica_def replica_ok_def split: sum.splits option.splits)
  qed
qed

lemma classify_replicas_ok:
  assumes "config_consistent cfg"
  shows "\<forall>loc \<in> set locs. replica_ok hosts loc \<Longrightarrow>
         \<exists>cs. classify_replicas cfg base hosts locs = Inr cs \<and> (\<forall>c \<in> set cs. located cfg c)"
proof (induction locs)
  case Nil
  then show ?case by simp
next
  case (Cons loc locs)
  from Cons.prems have "replica_ok hosts loc" by simp
  from classify_replica_ok [OF assms this, of base] obtain c where
    c: "classify_replica cfg base hosts loc = Inr c" and l: "located cfg c"
    by blast
  from Cons.prems Cons.IH obtain cs where
    cs: "classify_replicas cfg base hosts locs = Inr cs" "\<forall>c \<in> set cs. located cfg c"
    by auto
  from c cs l show ?case by simp
qed

lemma candidates_at_simps:
  "candidates_at best [] = []"
  "candidates_at best ((d, None) # cs) = candidates_at best cs"
  "candidates_at best ((d, Some a) # cs) =
     (if d = best then a # candidates_at best cs else candidates_at best cs)"
  by (simp_all add: candidates_at_def)

lemma candidates_at_set:
  "set (candidates_at best cs) = {a. (best, Some a) \<in> set cs}"
proof (induction cs)
  case Nil
  show ?case by (simp add: candidates_at_simps)
next
  case (Cons c cs)
  obtain d i where c: "c = (d, i)" by (cases c)
  have "set (candidates_at best ((d, i) # cs)) = {a. (best, Some a) \<in> set ((d, i) # cs)}"
  proof (cases i)
    case None
    with Cons.IH show ?thesis by (auto simp: candidates_at_simps)
  next
    case (Some a)
    with Cons.IH show ?thesis by (auto simp: candidates_at_simps)
  qed
  with c show ?case by simp
qed

lemma candidates_located:
  "\<forall>c \<in> set cs. located cfg c \<Longrightarrow> a \<in> set (candidates_at best cs) \<Longrightarrow> lookup_by_ip cfg a \<noteq> []"
  by (auto simp: candidates_at_set located_def)

lemma candidates_not_empty:
  assumes "\<forall>c \<in> set cs. located cfg c" and "best_distance cs \<noteq> REMOTE"
  shows "candidates_at (best_distance cs) cs \<noteq> []"
proof -
  from best_distance_mem [of cs] assms(2) obtain c where c: "c \<in> set cs" "fst c = best_distance cs"
    by auto
  with assms obtain a where "snd c = Some a"
    by (cases "snd c") (auto simp: located_def)
  with c have "(best_distance cs, Some a) \<in> set cs" by (metis prod.collapse)
  then have "a \<in> set (candidates_at (best_distance cs) cs)" by (simp add: candidates_at_set)
  then show ?thesis by auto
qed

subsection \<open>The lists of the backends\<close>

lemma ranges_at_Record:
  assumes "RecordScanRangeAssignment ctx backend node_id hosts l a = Inr (ctx', a')"
  shows "ranges_at a' node_id b =
     ranges_at a node_id b @ (if b = address backend then [scan_range l] else [])"
proof -
  from RecordScanRangeAssignment_params [OF assms] obtain p where
    p: "scan_range_params (backend_config ctx) backend hosts l = Inr p" and
    a': "\<forall>b n. assigned_ranges a' b n =
           assigned_ranges a b n @ (if b = address backend \<and> n = node_id then [p] else [])"
    by blast
  from a' scan_range_params_range [OF p] show ?thesis by (simp add: ranges_at_def)
qed

lemma total_count_Record:
  assumes "backend \<in> set (executors cfg)"
    and rec: "RecordScanRangeAssignment ctx backend node_id hosts l a = Inr (ctx', a')"
  shows "total_count cfg node_id a' r =
         total_count cfg node_id a r + (if scan_range l = r then 1 else 0)"
proof -
  let ?A = "address ` set (executors cfg)"
  have fin: "finite ?A" by simp
  from assms(1) have mem: "address backend \<in> ?A" by simp
  have "total_count cfg node_id a' r =
      (\<Sum>b \<in> ?A. count_list (ranges_at a node_id b) r +
         (if b = address backend then (if scan_range l = r then 1 else 0) else 0))"
    unfolding total_count_def by (rule sum.cong) (simp_all add: ranges_at_Record [OF rec])
  also have "\<dots> = total_count cfg node_id a r +
      (\<Sum>b \<in> ?A. if b = address backend then (if scan_range l = r then 1 else 0) else 0)"
    by (simp add: sum.distrib total_count_def)
  also have "(\<Sum>b \<in> ?A. if b = address backend then (if scan_range l = r then 1 else 0) else 0) =
      (if scan_range l = r then 1 else (0::nat))"
    using mem by (simp add: sum.delta' [OF fin])
  finally show ?thesis .
qed

lemma assignment_counts_Record:
  assumes ok: "assignment_counts cfg node_id xs a" and ex: "backend \<in> set (executors cfg)"
    and rec: "RecordScanRangeAssignment ctx backend node_id hosts l a = Inr (ctx', a')"
  shows "assignment_counts cfg node_id (scan_range l # xs) a'"
proof -
  from ok have c: "\<And>r. total_count cfg node_id a r = count_list xs r"
    and e: "\<And>b. ranges_at a node_id b \<noteq> [] \<Longrightarrow> b \<in> address ` set (executors cfg)"
    unfolding assignment_counts_def by blast+
  have 1: "\<forall>r. total_count cfg node_id a' r = count_list (scan_range l # xs) r"
    by (simp add: total_count_Record [OF ex rec] c)
  have 2: "\<forall>b. ranges_at a' node_id b \<noteq> [] \<longrightarrow> b \<in> address ` set (executors cfg)"
    using e ex by (auto simp: ranges_at_Record [OF rec])
  from 1 2 show ?thesis unfolding assignment_counts_def by blast
qed

lemma distinct_count_list:
  "(\<And>x. count_list xs x \<le> 1) \<Longrightarrow> distinct xs"
proof (induction xs)
  case Nil
  show ?case by simp
next
  case (Cons y ys)
  from Cons.prems [of y] have "count_list ys y = 0" by simp
  then have y: "y \<notin> set ys" by (simp add: count_list_0_iff)
  have "count_list ys x \<le> 1" for x
    using Cons.prems [of x] by (simp split: if_splits)
  from Cons.IH [OF this] y show ?case by simp
qed

lemma count_list_distinct: "distinct xs \<Longrightarrow> count_list xs x = (if x \<in> set xs then 1 else 0)"
  by (induction xs) auto

subsection \<open>One scan range\<close>

lemma assign_scan_range_malformed:
  assumes "\<not> (\<forall>loc \<in> set (locations l). replica_ok hosts loc)"
  shows "assign_scan_range coord node_id base rr hosts False l (ctx, a, rem) = Inl MALFORMED_PLAN"
  using classify_replicas_malformed [OF assms, of "backend_config ctx" base]
  by (simp add: assign_scan_range_def)

lemma assign_scan_range_ok:
  assumes cc: "config_consistent cfg" and ctx: "ctx_ok cfg ctx"
    and ok: "assignment_counts cfg node_id xs a"
    and wf: "\<forall>loc \<in> set (locations l). replica_ok hosts loc"
  shows "\<exists>ctx' a'. ctx_ok cfg ctx' \<and>
           (assign_scan_range coord node_id base rr hosts False l (ctx, a, rem)
              = Inr (ctx', a', rem @ [l]) \<and> assignment_counts cfg node_id xs a' \<or>
            assign_scan_range coord node_id base rr hosts False l (ctx, a, rem)
              = Inr (ctx', a', rem) \<and> assignment_counts cfg node_id (scan_range l # xs) a')"
proof -
  from ctx have cfg: "backend_config ctx = cfg" and wfc: "ctx_wf cfg ctx"
    by (simp_all add: ctx_ok_def ctx_wf_def)
  from classify_replicas_ok [OF cc wf, of base] obtain cs where
    cs: "classify_replicas cfg base hosts (locations l) = Inr cs" and
    loc: "\<forall>c \<in> set cs. located cfg c"
    by blast
  show ?thesis
  proof (cases "best_distance cs = REMOTE")
    case True
    with cs cfg have "assign_scan_range coord node_id base rr hosts False l (ctx, a, rem)
        = Inr (ctx, a, rem @ [l])"
      by (simp add: assign_scan_range_def)
    with ctx ok show ?thesis by blast
  next
    case False
    let ?cands = "candidates_at (best_distance cs) cs"
    let ?br = "rr \<or> best_distance cs = CACHE_LOCAL"
    from candidates_not_empty [OF loc False] obtain c rest where cands: "?cands = c # rest"
      by (cases ?cands) auto
    let ?i = "select_among ctx ?br c rest"
    have sel: "SelectLocalBackendHost ctx ?cands ?br = Some ?i"
      by (simp add: SelectLocalBackendHost_def cands)
    have "?i \<in> set ?cands" unfolding cands by (rule select_among_mem)
    from candidates_located [OF loc this] have "lookup_by_ip cfg ?i \<noteq> []" .
    from SelectBackendOnHost_ok [OF cc wfc this] obtain backend ctx1 where
      sb: "SelectBackendOnHost ctx ?i = Some (backend, ctx1)" and
      ex: "backend \<in> set (executors cfg)" and
      key: "ip_address backend \<in> fst ` set (backend_map cfg)" and
      wf1: "ctx_wf cfg ctx1"
      by blast
    from RecordScanRangeAssignment_ok [OF wf] obtain ctx2 a2 where
      rec: "RecordScanRangeAssignment ctx1 backend node_id hosts l a = Inr (ctx2, a2)"
      by blast
    have step: "assign_scan_range coord node_id base rr hosts False l (ctx, a, rem)
        = Inr (ctx2, a2, rem)"
      using cs cfg False sel sb rec
      by (simp add: assign_scan_range_def Let_def)
    from ctx_ok_Record [OF wf1 key rec] have "ctx_ok cfg ctx2" .
    moreover from assignment_counts_Record [OF ok ex rec]
    have "assignment_counts cfg node_id (scan_range l # xs) a2" .
    ultimately show ?thesis using step by blast
  qed
qed

lemma assign_remote_scan_range_ok:
  assumes cc: "config_consistent cfg" and ctx: "ctx_ok cfg ctx"
    and ok: "assignment_counts cfg node_id xs a"
    and wf: "\<forall>loc \<in> set (locations l). replica_ok hosts loc"
  shows "\<exists>ctx' a'. assign_remote_scan_range node_id hosts l (ctx, a) = Inr (ctx', a') \<and>
           ctx_ok cfg ctx' \<and> assignment_counts cfg node_id (scan_range l # xs) a'"
proof -
  from SelectRemoteBackendHost_ok [OF ctx] obtain i ctx1 where
    sr: "SelectRemoteBackendHost ctx = Some (i, ctx1)" and
    i: "i \<in> fst ` set (backend_map cfg)" and wf1: "ctx_wf cfg ctx1"
    by blast
  from lookup_by_ip_key [OF cc i] have "lookup_by_ip cfg i \<noteq> []" .
  from SelectBackendOnHost_ok [OF cc wf1 this] obtain backend ctx2 where
    sb: "SelectBackendOnHost ctx1 i = Some (backend, ctx2)" and
    ex: "backend \<in> set (executors cfg)" and
    key: "ip_address backend \<in> fst ` set (backend_map cfg)" and
    wf2: "ctx_wf cfg ctx2"
    by blast
  from RecordScanRangeAssignment_ok [OF wf] obtain ctx3 a3 where
    rec: "RecordScanRangeAssignment ctx2 backend node_id hosts l a = Inr (ctx3, a3)"
    by blast
  have "assign_remote_scan_range node_id hosts l (ctx, a) = Inr (ctx3, a3)"
    using sr sb rec by (simp add: assign_remote_scan_range_def)
  moreover from ctx_ok_Record [OF wf2 key rec] have "ctx_ok cfg ctx3" .
  moreover from assignment_counts_Record [OF ok ex rec]
  have "assignment_counts cfg node_id (scan_range l # xs) a3" .
  ultimately show ?thesis by blast
qed

subsection \<open>The two passes\<close>

lemma assign_remote_scan_ranges_ok:
  assumes cc: "config_consistent cfg"
  shows "ctx_ok cfg ctx \<Longrightarrow> assignment_counts cfg node_id xs a \<Longrightarrow> plan_ok hosts rs \<Longrightarrow>
         \<exists>ctx' a' xs'. assign_remote_scan_ranges node_id hosts rs (ctx, a) = Inr (ctx', a') \<and>
           assignment_counts cfg node_id xs' a' \<and>
           (\<forall>r. count_list xs' r = count_list xs r + count_list (map scan_range rs) r)"
proof (induction rs arbitrary: ctx a xs)
  case Nil
  then show ?case by auto
next
  case (Cons l rs)
  from Cons.prems(3) have wf: "\<forall>loc \<in> set (locations l). replica_ok hosts loc"
    and rest: "plan_ok hosts rs"
    by (simp_all add: plan_ok_def)
  from assign_remote_scan_range_ok [OF cc Cons.prems(1,2) wf] obtain ctx1 a1 where
    1: "assign_remote_scan_range node_id hosts l (ctx, a) = Inr (ctx1, a1)" and
    c1: "ctx_ok cfg ctx1" and a1: "assignment_counts cfg node_id (scan_range l # xs) a1"
    by blast
  from Cons.IH [OF c1 a1 rest] obtain ctx' a' xs' where
    2: "assign_remote_scan_ranges node_id hosts rs (ctx1, a1) = Inr (ctx', a')" and
    a': "assignment_counts cfg node_id xs' a'" and
    n: "\<forall>r. count_list xs' r = count_list (scan_range l # xs) r + count_list (map scan_range rs) r"
    by blast
  from n have "\<forall>r. count_list xs' r = count_list xs r + count_list (map scan_range (l # rs)) r"
    by simp
  with a' 1 2 show ?case by auto
qed

lemma assign_scan_ranges_ok:
  assumes cc: "config_consistent cfg"
  shows "ctx_ok cfg ctx \<Longrightarrow> assignment_counts cfg node_id xs a \<Longrightarrow> plan_ok hosts rem \<Longrightarrow>
         (if plan_ok hosts ls
          then \<exists>ctx' a' rem' xs'.
                 assign_scan_ranges coord node_id base rr hosts False ls (ctx, a, rem)
                   = Inr (ctx', a', rem') \<and>
                 ctx_ok cfg ctx' \<and> assignment_counts cfg node_id xs' a' \<and>
                 plan_ok hosts rem' \<and>
                 (\<forall>r. count_list xs' r + count_list (map scan_range rem') r =
                      count_list xs r + count_list (map scan_range rem) r +
                      count_list (map scan_range ls) r)
          else assign_scan_ranges coord node_id base rr hosts False ls (ctx, a, rem)
                 = Inl MALFORMED_PLAN)"
proof (induction ls arbitrary: ctx a rem xs)
  case Nil
  then show ?case by (auto simp: plan_ok_def)
next
  case (Cons l ls)
  show ?case
  proof (cases "\<forall>loc \<in> set (locations l). replica_ok hosts loc")
    case False
    from assign_scan_range_malformed [OF this] False show ?thesis
      by (simp add: plan_ok_def)
  next
    case True
    from assign_scan_range_ok [OF cc Cons.prems(1,2) True, of coord base rr rem]
    obtain ctx1 a1 rem1 xs1 where
      1: "assign_scan_range coord node_id base rr hosts False l (ctx, a, rem) = Inr (ctx1, a1, rem1)" and
      c1: "ctx_ok cfg ctx1" and a1: "assignment_counts cfg node_id xs1 a1" and
      alt: "rem1 = rem @ [l] \<and> xs1 = xs \<or> rem1 = rem \<and> xs1 = scan_range l # xs"
      by blast
    from alt have n1: "\<forall>r. count_list xs1 r + count_list (map scan_range rem1) r =
        count_list xs r + count_list (map scan_range rem) r + count_list [scan_range l] r"
      by auto
    have po: "plan_ok hosts (l # ls) = plan_ok hosts ls"
      using True by (simp add: plan_ok_def)
    from alt True Cons.prems(3) have p1: "plan_ok hosts rem1"
      by (auto simp: plan_ok_def)
    note ih = Cons.IH [OF c1 a1 p1]
    show ?thesis
    proof (cases "plan_ok hosts ls")
      case False
      with ih 1 po show ?thesis by simp
    next
      case ok: True
      with ih obtain ctx' a' rem' xs' where
        2: "assign_scan_ranges coord node_id base rr hosts False ls (ctx1, a1, rem1)
              = Inr (ctx', a', rem')" and
        r: "ctx_ok cfg ctx'" "assignment_counts cfg node_id xs' a'" "plan_ok hosts rem'" and
        n: "\<forall>r. count_list xs' r + count_list (map scan_range rem') r =
              count_list xs1 r + count_list (map scan_range rem1) r +
              count_list (map scan_range ls) r"
        by auto
      have "\<forall>r. count_list xs' r + count_list (map scan_range rem') r =
          count_list xs r + count_list (map scan_range rem) r +
          count_list (map scan_range (l # ls)) r"
      proof
        fix r
        from n n1 have "count_list xs' r + count_list (map scan_range rem') r =
            count_list xs r + count_list (map scan_range rem) r + count_list [scan_range l] r +
            count_list (map scan_range ls) r"
          by simp
        then show "count_list xs' r + count_list (map scan_range rem') r =
          count_list xs r + count_list (map scan_range rem) r +
          count_list (map scan_range (l # ls)) r"
          by simp
      qed
      with 1 2 r ok po show ?thesis by auto
    qed
  qed
qed

subsection \<open>The claim\<close>

lemma ctx_ok_ctor:
  assumes "executors cfg \<noteq> []"
    and "set (shuffle (map fst (backend_map cfg))) = set (map fst (backend_map cfg))"
  shows "ctx_ok cfg (AssignmentCtx_ctor cfg shuffle n m)"
proof -
  from assms(1) have "backend_map cfg \<noteq> []" by (auto simp: executors_def)
  then have "set (map fst (backend_map cfg)) \<noteq> {}" by simp
  with assms(2) have "shuffle (map fst (backend_map cfg)) \<noteq> []" by auto
  with assms(2) show ?thesis
    by (simp add: ctx_ok_def ctx_wf_def AssignmentCtx_ctor_def Let_def empty_heap_def)
qed

lemma executors_are_executors:
  assumes "config_consistent cfg" and "d \<in> set (executors cfg)"
  shows "is_executor d"
proof -
  from assms(2) obtain k ds where "(k, ds) \<in> set (backend_map cfg)" "d \<in> set ds"
    by (auto simp: executors_def)
  with assms(1) show ?thesis by (auto simp: config_consistent_def)
qed

lemma count_le_total_count:
  assumes "assignment_counts cfg node_id xs a"
  shows "count_list (ranges_at a node_id b) r \<le> count_list xs r"
proof (cases "ranges_at a node_id b = []")
  case True
  then show ?thesis by simp
next
  case False
  with assms have "b \<in> address ` set (executors cfg)" by (simp add: assignment_counts_def)
  then have "count_list (ranges_at a node_id b) r \<le> total_count cfg node_id a r"
    unfolding total_count_def by (intro member_le_sum) simp_all
  with assms show ?thesis by (simp add: assignment_counts_def)
qed

lemma assigned_once:
  assumes ok: "assignment_counts cfg node_id xs a" and d: "distinct xs" and r: "r \<in> set xs"
  shows "\<exists>!b. r \<in> set (ranges_at a node_id b)"
proof -
  let ?A = "address ` set (executors cfg)"
  have fin: "finite ?A" by simp
  from ok d r have "(\<Sum>b \<in> ?A. count_list (ranges_at a node_id b) r) = 1"
    by (simp add: assignment_counts_def total_count_def count_list_distinct)
  with sum_eq_1_iff [OF fin, of "\<lambda>b. count_list (ranges_at a node_id b) r"]
  obtain b where b: "b \<in> ?A" "count_list (ranges_at a node_id b) r = 1"
    and others: "\<forall>b' \<in> ?A. b \<noteq> b' \<longrightarrow> count_list (ranges_at a node_id b') r = 0"
    by blast
  from b(2) have here: "r \<in> set (ranges_at a node_id b)"
    by (metis count_list_0_iff zero_neq_one)
  show ?thesis
  proof (rule ex1I [of _ b])
    show "r \<in> set (ranges_at a node_id b)" by (rule here)
  next
    fix b' assume b': "r \<in> set (ranges_at a node_id b')"
    then have "ranges_at a node_id b' \<noteq> []" by auto
    with ok have "b' \<in> ?A" by (simp add: assignment_counts_def)
    show "b' = b"
    proof (rule ccontr)
      assume "b' \<noteq> b"
      with others \<open>b' \<in> ?A\<close> have "count_list (ranges_at a node_id b') r = 0" by auto
      with b' show False by (simp add: count_list_0_iff)
    qed
  qed
qed

text \<open>
  C1. For a consistent configuration with executors, a random order that rearranges
  the backends and an assignment without ranges for the plan node, and with
  \<^verbatim>\<open>exec_at_coord\<close> false: a plan whose host indexes are in the host list gets an
  assignment, in which the lists of the executors have every scan range as often as
  the plan has it, no list has a range that is not of the plan, and every backend with
  a range is a backend of the configuration that is an executor. So if the scan ranges of the plan are
  distinct, each of them is in the list of exactly one backend, and no list has a
  range twice. Any other plan is rejected as malformed.
\<close>

theorem every_scan_range_assigned_once:
  assumes "config_consistent cfg" and "executors cfg \<noteq> []"
    and "set (rng this (map fst (backend_map cfg))) = set (map fst (backend_map cfg))"
    and "\<forall>b. assigned_ranges assignment b node_id = []"
  shows "if plan_ok host_list locs
         then \<exists>ctx assignment'.
                ComputeScanRangeAssignment this cfg node_id node_replica_preference
                  node_random_replica locs host_list False query_options assignment
                  = Inr (ctx, assignment') \<and>
                (\<forall>r. total_count cfg node_id assignment' r =
                       count_list (map scan_range locs) r) \<and>
                (\<forall>b. set (ranges_at assignment' node_id b) \<subseteq> scan_range ` set locs) \<and>
                (\<forall>b. ranges_at assignment' node_id b \<noteq> [] \<longrightarrow>
                       (\<exists>d \<in> set (executors cfg). address d = b \<and> is_executor d)) \<and>
                (distinct (map scan_range locs) \<longrightarrow>
                   (\<forall>l \<in> set locs. \<exists>!b. scan_range l \<in> set (ranges_at assignment' node_id b)) \<and>
                   (\<forall>b. distinct (ranges_at assignment' node_id b)))
         else ComputeScanRangeAssignment this cfg node_id node_replica_preference
                node_random_replica locs host_list False query_options assignment
                = Inl MALFORMED_PLAN"
proof -
  let ?base = "base_distance query_options node_replica_preference"
  let ?rr = "schedule_random_replica query_options \<or> node_random_replica"
  let ?ctx0 = "AssignmentCtx_ctor cfg (rng this)
               (Scheduler.total_assignments this) (Scheduler.total_local_assignments this)"
  let ?pass1 = "assign_scan_ranges (local_backend_descriptor this) node_id ?base ?rr host_list
                  False locs (?ctx0, assignment, [])"
  let ?plan = "map scan_range locs"
  have compute: "ComputeScanRangeAssignment this cfg node_id node_replica_preference
                  node_random_replica locs host_list False query_options assignment =
      (case ?pass1 of
         Inl e \<Rightarrow> Inl e
       | Inr (ctx, assignment', rem) \<Rightarrow>
           assign_remote_scan_ranges node_id host_list rem (ctx, assignment'))"
    using assms(2) by (simp add: ComputeScanRangeAssignment_def Let_def)
  have c0: "ctx_ok cfg ?ctx0"
    using assms(2,3) by (rule ctx_ok_ctor [where shuffle = "rng this"])
  have a0: "assignment_counts cfg node_id [] assignment"
    using assms(4) by (simp add: assignment_counts_def total_count_def ranges_at_def)
  have p0: "plan_ok host_list []" by (simp add: plan_ok_def)
  note pass1 = assign_scan_ranges_ok [OF assms(1) c0 a0 p0, of locs
      "local_backend_descriptor this" ?base ?rr]
  show ?thesis
  proof (cases "plan_ok host_list locs")
    case False
    with pass1 compute show ?thesis by simp
  next
    case True
    with pass1 obtain ctx1 a1 rem xs1 where
      1: "?pass1 = Inr (ctx1, a1, rem)" and
      c1: "ctx_ok cfg ctx1" and a1: "assignment_counts cfg node_id xs1 a1" and
      p1: "plan_ok host_list rem" and
      n1: "\<forall>r. count_list xs1 r + count_list (map scan_range rem) r = count_list ?plan r"
      by auto
    from assign_remote_scan_ranges_ok [OF assms(1) c1 a1 p1]
    obtain ctx a' xs' where
      2: "assign_remote_scan_ranges node_id host_list rem (ctx1, a1) = Inr (ctx, a')" and
      ok': "assignment_counts cfg node_id xs' a'" and
      n2: "\<forall>r. count_list xs' r = count_list xs1 r + count_list (map scan_range rem) r"
      by blast
    from n1 n2 have n: "\<And>r. count_list xs' r = count_list ?plan r" by simp
    from ok' n have ok: "assignment_counts cfg node_id ?plan a'"
      by (simp add: assignment_counts_def)
    from compute 1 2 have res: "ComputeScanRangeAssignment this cfg node_id node_replica_preference
                  node_random_replica locs host_list False query_options assignment = Inr (ctx, a')"
      by simp
    from ok have tot: "\<forall>r. total_count cfg node_id a' r = count_list ?plan r"
      and exs: "\<forall>b. ranges_at a' node_id b \<noteq> [] \<longrightarrow> b \<in> address ` set (executors cfg)"
      unfolding assignment_counts_def by blast+
    have sub: "\<forall>b. set (ranges_at a' node_id b) \<subseteq> scan_range ` set locs"
    proof (intro allI subsetI)
      fix b r assume "r \<in> set (ranges_at a' node_id b)"
      then have "count_list (ranges_at a' node_id b) r \<noteq> 0" by (simp add: count_list_0_iff)
      with count_le_total_count [OF ok, of b r] have "count_list ?plan r \<noteq> 0" by simp
      then have "r \<in> set ?plan" by (simp add: count_list_0_iff)
      then show "r \<in> scan_range ` set locs" by simp
    qed
    have dist: "distinct ?plan \<longrightarrow>
        (\<forall>l \<in> set locs. \<exists>!b. scan_range l \<in> set (ranges_at a' node_id b)) \<and>
        (\<forall>b. distinct (ranges_at a' node_id b))"
    proof (intro impI conjI ballI allI)
      fix l assume "distinct ?plan" "l \<in> set locs"
      then show "\<exists>!b. scan_range l \<in> set (ranges_at a' node_id b)"
        by (intro assigned_once [OF ok]) simp_all
    next
      fix b assume d: "distinct ?plan"
      have "count_list (ranges_at a' node_id b) r \<le> 1" for r
        using count_le_total_count [OF ok, of b r]
        by (simp add: count_list_distinct [OF d] split: if_splits)
      then show "distinct (ranges_at a' node_id b)" by (rule distinct_count_list)
    qed
    have exs': "\<forall>b. ranges_at a' node_id b \<noteq> [] \<longrightarrow>
        (\<exists>d \<in> set (executors cfg). address d = b \<and> is_executor d)"
    proof (intro allI impI)
      fix b assume "ranges_at a' node_id b \<noteq> []"
      with exs obtain d where d: "d \<in> set (executors cfg)" "address d = b" by auto
      with executors_are_executors [OF assms(1) d(1)]
      show "\<exists>d \<in> set (executors cfg). address d = b \<and> is_executor d" by blast
    qed
    from True res tot sub exs' dist show ?thesis by simp
  qed
qed

theorem every_scan_range_assigned_once_witness:
  "config_consistent example_config \<and> executors example_config \<noteq> [] \<and>
   plan_ok example_hosts
     [example_range ''f1'' [(0, False), (1, False)], example_range ''f2'' [(2, False)]] \<and>
   (\<exists>ctx assignment'.
      ComputeScanRangeAssignment (example_scheduler rev) example_config 0 None False
        [example_range ''f1'' [(0, False), (1, False)], example_range ''f2'' [(2, False)]]
        example_hosts False (example_options False False) Map.empty = Inr (ctx, assignment') \<and>
      total_count example_config 0 assignment' \<lparr> blob = ''f1'', length_bytes = 1048576 \<rparr> = 1 \<and>
      total_count example_config 0 assignment' \<lparr> blob = ''f2'', length_bytes = 1048576 \<rparr> = 1 \<and>
      (\<exists>!b. \<lparr> blob = ''f1'', length_bytes = 1048576 \<rparr> \<in> set (ranges_at assignment' 0 b)) \<and>
      (\<exists>!b. \<lparr> blob = ''f2'', length_bytes = 1048576 \<rparr> \<in> set (ranges_at assignment' 0 b)))"
proof -
  let ?locs = "[example_range ''f1'' [(0, False), (1, False)], example_range ''f2'' [(2, False)]]"
  have 1: "config_consistent example_config"
    by (simp add: config_consistent_def example_defs lookup_by_ip_def)
  have 2: "executors example_config \<noteq> []"
    by (simp add: executors_def example_defs)
  have 3: "set (rng (example_scheduler rev) (map fst (backend_map example_config))) =
           set (map fst (backend_map example_config))"
    by (auto simp: example_defs)
  have 4: "distinct (map scan_range ?locs)"
    by (simp add: example_defs)
  have 5: "\<forall>b. assigned_ranges Map.empty b 0 = []"
    by (simp add: assigned_ranges_def)
  have 6: "plan_ok example_hosts ?locs"
    by (simp add: plan_ok_def replica_ok_def example_defs)
  from every_scan_range_assigned_once [OF 1 2 3 5, of example_hosts ?locs None False
      "example_options False False"] 4 6
  have "\<exists>ctx assignment'.
      ComputeScanRangeAssignment (example_scheduler rev) example_config 0 None False
        ?locs example_hosts False (example_options False False) Map.empty = Inr (ctx, assignment') \<and>
      (\<forall>r. total_count example_config 0 assignment' r = count_list (map scan_range ?locs) r) \<and>
      (\<forall>l \<in> set ?locs. \<exists>!b. scan_range l \<in> set (ranges_at assignment' 0 b))"
    by (simp only: if_True) blast
  then obtain ctx assignment' where
    r: "ComputeScanRangeAssignment (example_scheduler rev) example_config 0 None False
        ?locs example_hosts False (example_options False False) Map.empty = Inr (ctx, assignment')" and
    t: "\<forall>r. total_count example_config 0 assignment' r = count_list (map scan_range ?locs) r" and
    o: "\<forall>l \<in> set ?locs. \<exists>!b. scan_range l \<in> set (ranges_at assignment' 0 b)"
    by blast
  from o have "\<exists>!b. \<lparr> blob = ''f1'', length_bytes = 1048576 \<rparr> \<in> set (ranges_at assignment' 0 b)"
    "\<exists>!b. \<lparr> blob = ''f2'', length_bytes = 1048576 \<rparr> \<in> set (ranges_at assignment' 0 b)"
    by (simp_all add: example_range_def)
  moreover from t have
    "total_count example_config 0 assignment' \<lparr> blob = ''f1'', length_bytes = 1048576 \<rparr> = 1"
    "total_count example_config 0 assignment' \<lparr> blob = ''f2'', length_bytes = 1048576 \<rparr> = 1"
    by (simp_all add: example_range_def)
  ultimately show ?thesis using 1 2 6 r by blast
qed

section \<open>The claim about duplicate registrations\<close>

subsection \<open>The backends of an address\<close>













subsection \<open>The entries of a delta\<close>







subsection \<open>The update\<close>





subsection \<open>The claim\<close>





section \<open>The snapshots of the membership updates are consistent\<close>

lemma well_filed_update_backends:
  assumes "\<And>ds. \<forall>d \<in> set ds. ip_address d = i \<and> is_executor d \<Longrightarrow>
             \<forall>d \<in> set (f ds). ip_address d = i \<and> is_executor d"
  shows "well_filed m \<Longrightarrow> well_filed (update_backends i f m)"
proof (induction m)
  case Nil
  from assms [of "[]"] show ?case by (simp add: well_filed_def)
next
  case (Cons p m)
  obtain k ds where p: "p = (k, ds)" by (cases p)
  from Cons.prems have here: "ds \<noteq> []" "\<forall>d \<in> set ds. ip_address d = k \<and> is_executor d"
    and rest: "well_filed m"
    by (simp_all add: well_filed_def p)
  show ?case
  proof (cases "k = i")
    case True
    with here assms [of ds] have "\<forall>d \<in> set (f ds). ip_address d = k \<and> is_executor d" by simp
    moreover from rest have "well_filed (filter (\<lambda>(k', ds'). k' \<noteq> i) m)"
      by (auto simp: well_filed_def)
    ultimately show ?thesis using True by (auto simp: well_filed_def p)
  next
    case False
    with here Cons.IH [OF rest] show ?thesis by (simp add: well_filed_def p)
  qed
qed

lemma well_filed_AddBackend:
  "well_filed (backend_map cfg) \<Longrightarrow> well_filed (backend_map (AddBackend cfg d))"
  unfolding AddBackend_def by (simp add: well_filed_update_backends)

lemma well_filed_RemoveBackend:
  "well_filed (backend_map cfg) \<Longrightarrow> well_filed (backend_map (RemoveBackend cfg d))"
  unfolding RemoveBackend_def by (simp add: well_filed_update_backends)

lemma well_filed_apply_topic_item:
  "well_filed (backend_map (snd st)) \<Longrightarrow>
   well_filed (backend_map (snd (apply_topic_item item st)))"
  by (cases st)
     (auto simp: apply_topic_item_def well_filed_AddBackend well_filed_RemoveBackend
           split: option.splits)

lemma well_filed_fold:
  "well_filed (backend_map (snd st)) \<Longrightarrow>
   well_filed (backend_map (snd (fold apply_topic_item items st)))"
  by (induction items arbitrary: st) (simp_all add: well_filed_apply_topic_item)

lemma config_consistent_rebuild:
  assumes "well_filed (backend_map cfg)"
  shows "config_consistent (rebuild_hostname_index cfg)"
proof -
  have "lookup_by_ip (rebuild_hostname_index cfg) (ip_address d) \<noteq> []"
    if "d \<in> set (executors cfg)" for d
  proof -
    from that obtain k ds where m: "(k, ds) \<in> set (backend_map cfg)" and d: "d \<in> set ds"
      by (auto simp: executors_def)
    with assms have k: "ip_address d = k" by (auto simp: well_filed_def)
    from m have "k \<in> fst ` set (backend_map cfg)" by force
    then obtain ds' where m': "map_of (backend_map cfg) k = Some ds'"
      by (metis domD dom_map_of_conv_image_fst)
    then have "(k, ds') \<in> set (backend_map cfg)" by (rule map_of_SomeD)
    with assms have "ds' \<noteq> []" by (auto simp: well_filed_def)
    with m' k show ?thesis by (simp add: lookup_by_ip_def rebuild_hostname_index_def)
  qed
  with assms show ?thesis
    by (auto simp: config_consistent_def well_filed_def rebuild_hostname_index_def)
qed

text \<open>
  Every snapshot that a membership update publishes is consistent, if the update is a
  full map or the executor index before it is well filed, as the index of an empty or
  of a consistent configuration is.
\<close>

lemma config_consistent_UpdateMembership:
  assumes "is_delta delta \<longrightarrow> well_filed (backend_map (Scheduler.backend_config this))"
  shows "config_consistent (Scheduler.backend_config (UpdateMembership this delta))"
proof -
  let ?start = "if is_delta delta
                   then (current_membership this, Scheduler.backend_config this)
                   else (Map.empty, empty_config)"
  from assms have "well_filed (backend_map (snd ?start))"
    by (simp add: well_filed_def empty_config_def)
  from config_consistent_rebuild [OF well_filed_fold [OF this]]
  show ?thesis by (simp add: UpdateMembership_def Let_def)
qed

lemma config_consistent_well_filed:
  "config_consistent cfg \<Longrightarrow> well_filed (backend_map cfg)"
  by (simp add: config_consistent_def well_filed_def)

end
